theory Spec2Isabelle
  imports Main "HOL-Library.Word" "HOL-Library.Sublist"
begin

section \<open>The upload stream of gcs-browser-upload (src/UploadStream.js)\<close>

text \<open>
  A shallow embedding of the class \<open>Upload\<close> of \<open>src/UploadStream.js\<close> and of the two
  module functions \<open>checkResponseStatus\<close> and \<open>safePut\<close>.

  Conventions.
  \<^item> JavaScript numbers are \<open>int\<close>: every number the file computes with is a byte count,
    a chunk index or an HTTP status. Values beyond \<open>2^53\<close> and fractions are outside the
    model.
  \<^item> A chunk (an \<open>ArrayBuffer\<close>) is a list of bytes; \<open>chunk.byteLength\<close> is its length.
  \<^item> A thrown error, or the rejection of the promise of an \<open>async\<close> function, is a value
    of the type \<open>error\<close>.
  \<^item> Everything the file does to its collaborators (the transport \<open>put\<close> of axios, the
    persistent storage behind \<open>FileMeta\<close>, the callbacks \<open>onProgress\<close> and
    \<open>onChunkUpload\<close>, the waits of the retry helper) is appended, in program order, to
    the field \<open>trace\<close> of the state. The callbacks and the storage are taken to return
    normally; \<open>debug\<close> only logs and is left out.
  \<^item> What the transport answers is an input: the reply to the \<open>n\<close>-th attempt of a call.
\<close>

subsection \<open>Data\<close>

type_synonym bytes = "8 word list"

text \<open>
  A response of the transport. \<open>res.headers['range']\<close> is a lookup by the exact name
  (axios hands the header names over in lower case).
\<close>

record response =
  status :: int
  headers :: "(string \<times> string) list"

datatype error =
    FileAlreadyUploadedError "string option" "string option"
  | UrlNotFoundError "string option"
  | UploadFailedError int
  | UploadUnableToRecoverError
  | UnknownResponseError response
  | MissingOptionsError string
  | UploadIncompleteError
  | InvalidChunkSizeError int
  | TransportError
  | TypeError

text \<open>
  \<open>TransportError\<close> stands for an \<open>Error\<close> instance that \<open>put\<close> rejects with, and
  \<open>TypeError\<close> for the one JavaScript raises on \<open>undefined.match\<close> and on \<open>null[2]\<close>.
\<close>

text \<open>
  The object \<open>opts\<close>. \<open>id\<close> and \<open>url\<close> are \<open>null\<close> (\<open>None\<close>) or a string. The fields
  \<open>storage\<close>, \<open>onChunkUpload\<close> and \<open>onProgress\<close> are collaborators and appear in the trace
  only. \<open>others\<close> holds the properties of \<open>args\<close> under names the constructor has no
  default for: the spread \<open>...args\<close> copies them into \<open>opts\<close>, and nothing reads them.
\<close>

record options =
  chunkSize :: int
  contentType :: string
  id' :: "string option"
  url :: "string option"
  backoffMillis :: int
  backoffRetryLimit :: nat
  others :: "(string \<times> int) list"

text \<open>The constructor's argument \<open>args\<close>: every property may be missing.\<close>

record args =
  arg_chunkSize :: "int option"
  arg_contentType :: "string option"
  arg_id :: "string option"
  arg_url :: "string option"
  arg_backoffMillis :: "int option"
  arg_backoffRetryLimit :: "nat option"
  arg_others :: "(string \<times> int) list"

record chunk_progress =
  uploadedBytes :: int
  chunkIndex :: int
  chunkLength :: int

record progress = chunk_progress +
  totalBytes :: int

datatype event =
    Put "string option" "bytes option" "(string \<times> string) list"
  | OnProgress progress
  | Backoff int
  | Append bytes
  | StoragePut "string option" int string
  | StorageClear "string option"
  | OnChunkUpload chunk_progress

text \<open>
  What \<open>put\<close> does with one request: the values of \<open>progressEvent.loaded\<close> it reports
  while sending, and how its promise settles: resolved with a response, rejected with an
  \<open>Error\<close>, or rejected with a response object that is no \<open>Error\<close>.
\<close>

datatype put_result = Resolves response | RejectsError | RejectsValue response

record put_reply =
  loaded :: "int list"
  settles :: put_result

text \<open>The settled state of the promise an \<open>async\<close> method returns.\<close>

datatype 'a outcome = Resolved 'a | Rejected error | Pending

datatype jsnumber = Finite int | Infinity | NegInfinity | NaN

record file_meta =
  meta_id :: "string option"
  meta_fileSize :: int
  meta_chunkSize :: int

text \<open>
  The state: the fields of the \<open>Upload\<close> object (\<open>paused\<close>, \<open>unpauseHandlers\<close>, \<open>spark\<close>,
  \<open>opts\<close>, \<open>meta\<close>) and the part of the environment it acts on.
  \<^item> An entry of \<open>unpauseHandlers\<close> is the \<open>resolve\<close> function of the promise that one
    suspended \<open>uploadChunk\<close> call awaits; it is represented by the arguments of that call.
  \<^item> \<open>spark\<close> is the running MD5 accumulator, represented by the bytes appended so far.
  \<^item> \<open>storage\<close> is the persistent checksum store, keyed by upload id.
  \<^item> \<open>jobs\<close> is the job queue of the event loop: the continuations of \<open>uploadChunk\<close>
    calls whose promise has been resolved and that have not run yet.
\<close>

record state =
  paused :: bool
  unpauseHandlers :: "(int \<times> bytes) list"
  spark :: bytes
  opts :: options
  meta :: file_meta
  storage :: "string option \<Rightarrow> (int \<rightharpoonup> string)"
  jobs :: "(int \<times> bytes) list"
  trace :: "event list"

subsection \<open>Numbers and strings of JavaScript\<close>

definition MIN_CHUNK_SIZE :: int where
  "MIN_CHUNK_SIZE = 262144"

text \<open>The operator \<open>%\<close>: the remainder has the sign of the dividend.\<close>

definition js_rem :: "int \<Rightarrow> int \<Rightarrow> int" where
  "js_rem a b = sgn a * (\<bar>a\<bar> mod \<bar>b\<bar>)"

text \<open>\<open>Math.floor(a / b)\<close> on integers.\<close>

definition floor_quotient :: "int \<Rightarrow> int \<Rightarrow> jsnumber" where
  "floor_quotient a b =
     (if b \<noteq> 0 then Finite (a div b)
      else if 0 < a then Infinity
      else if a < 0 then NegInfinity
      else NaN)"

definition digit_chars :: string where
  "digit_chars = ''0123456789''"

fun show_nat :: "nat \<Rightarrow> string" where
  "show_nat n =
     (if n < 10 then [digit_chars ! n]
      else show_nat (n div 10) @ [digit_chars ! (n mod 10)])"

declare show_nat.simps [simp del]

text \<open>A number inside a template literal.\<close>

definition show_int :: "int \<Rightarrow> string" where
  "show_int i = (if i < 0 then CHR ''-'' # show_nat (nat (- i)) else show_nat (nat i))"

definition is_digit :: "char \<Rightarrow> bool" where
  "is_digit c = (c \<in> set digit_chars)"

definition digit_value :: "char \<Rightarrow> int" where
  "digit_value c = int (of_char c) - 48"

text \<open>\<open>parseInt\<close> on a string of decimal digits.\<close>

definition parseInt :: "string \<Rightarrow> int" where
  "parseInt ds = foldl (\<lambda>n c. 10 * n + digit_value c) 0 ds"

text \<open>
  \<open>header.match(/(\d+?)-(\d+?)$/)\<close>. \<open>match_here\<close> matches the expression at the start of
  a string: a digit group, a minus sign, and a digit group that reaches the end. The
  first group must stop before a minus sign, which is no digit, so it is the whole run
  of digits, lazy quantifier or not. \<open>range_match\<close> tries the start positions from the
  left, as the regular expression engine does, and returns the two groups of the first
  match, or \<open>None\<close> for \<open>null\<close>.
\<close>

definition match_here :: "string \<Rightarrow> (string \<times> string) option" where
  "match_here s =
     (let g1 = takeWhile is_digit s in
      if g1 = [] then None
      else (case dropWhile is_digit s of
              [] \<Rightarrow> None
            | c # g2 \<Rightarrow>
                if c = CHR ''-'' \<and> g2 \<noteq> [] \<and> list_all is_digit g2 then Some (g1, g2)
                else None))"

fun range_match :: "string \<Rightarrow> (string \<times> string) option" where
  "range_match [] = None"
| "range_match (c # cs) =
     (case match_here (c # cs) of
        Some groups \<Rightarrow> Some groups
      | None \<Rightarrow> range_match cs)"

text \<open>\<open>allowed.indexOf(status)\<close>: the first position of the value, or \<open>-1\<close>.\<close>

fun indexOf_from :: "int \<Rightarrow> int list \<Rightarrow> int \<Rightarrow> int" where
  "indexOf_from i [] x = - 1"
| "indexOf_from i (y # ys) x = (if y = x then i else indexOf_from (i + 1) ys x)"

definition indexOf :: "int list \<Rightarrow> int \<Rightarrow> int" where
  "indexOf xs x = indexOf_from 0 xs x"

text \<open>The truth value of \<open>opts.id\<close> and \<open>opts.url\<close>: \<open>null\<close> and the empty string are false.\<close>

definition truthy :: "string option \<Rightarrow> bool" where
  "truthy v = (case v of None \<Rightarrow> False | Some s \<Rightarrow> s \<noteq> [])"

subsection \<open>Collaborators that are not part of the file\<close>

text \<open>
  Modelled from the spec: \<open>getChecksum\<close> of \<open>./FileProcessor\<close> is not in the source tree.
  The spec's contract is \<open>computeChunkChecksum(accumulatorState, chunkBytes) \<rightarrow>
  (checksumString, newAccumulatorState)\<close>, folding the chunk into the running accumulator.
  The digest function \<open>md5\<close> is a parameter.
\<close>

definition getChecksum :: "(bytes \<Rightarrow> string) \<Rightarrow> bytes \<Rightarrow> state \<Rightarrow> string \<times> state" where
  "getChecksum md5 chunk s =
     (md5 (spark s @ chunk),
      s\<lparr>spark := spark s @ chunk, trace := trace s @ [Append chunk]\<rparr>)"

text \<open>
  Modelled from the spec: the class \<open>FileMeta\<close> of \<open>./FileMeta\<close> is not in the source tree.
  The spec's persistence contract is \<open>put(id, index, checksum)\<close> and \<open>clear(id)\<close> on a
  store that maps, for each upload id, chunk indices to checksums.
\<close>

definition FileMeta :: "string option \<Rightarrow> int \<Rightarrow> int \<Rightarrow> file_meta" where
  "FileMeta i fileSize cs = \<lparr>meta_id = i, meta_fileSize = fileSize, meta_chunkSize = cs\<rparr>"

text \<open>
  Modelled from the spec: \<open>FileMeta.addChecksum\<close> is not in the source tree. It is the
  \<open>put(id, index, checksum)\<close> of the persistence contract, for the id the object was built
  with.
\<close>

definition addChecksum :: "int \<Rightarrow> string \<Rightarrow> state \<Rightarrow> state" where
  "addChecksum index checksum s =
     (let k = meta_id (meta s) in
      s\<lparr>storage := (storage s)(k := (storage s k)(index \<mapsto> checksum)),
        trace := trace s @ [StoragePut k index checksum]\<rparr>)"

text \<open>
  Modelled from the spec: \<open>FileMeta.reset\<close> is not in the source tree. It is the
  \<open>clear(id)\<close> of the persistence contract: the store keeps no checksum for the id.
\<close>

definition reset :: "state \<Rightarrow> state" where
  "reset s =
     (let k = meta_id (meta s) in
      s\<lparr>storage := (storage s)(k := Map.empty), trace := trace s @ [StorageClear k]\<rparr>)"

text \<open>
  Modelled from the spec: \<open>retry\<close> of the package async-retry is not in the source tree.
  The spec's retry policy (4.2) has the parameters \<open>retries\<close> (the additional attempts
  after the first) and \<open>minDelay\<close>: a failed attempt is followed by a wait of at least
  \<open>minDelay\<close> and another attempt, whatever the error, until an attempt succeeds or
  \<open>retries\<close> additional attempts have failed; then the last error is the result. The
  attempt function receives the number of the attempt, starting at 1.
\<close>

record retry_options =
  retries :: nat
  minTimeout :: int

text \<open>
  Modelled from the spec: the loop of \<open>retry\<close>, with \<open>left\<close> further attempts allowed after
  attempt \<open>num\<close>. The wait before a further attempt is recorded with its lower bound.
\<close>

fun retry_from ::
  "(nat \<Rightarrow> state \<Rightarrow> (error + 'a) \<times> state) \<Rightarrow> int \<Rightarrow> nat \<Rightarrow> nat \<Rightarrow> state \<Rightarrow> (error + 'a) \<times> state"
where
  "retry_from fn delay num 0 s = fn num s"
| "retry_from fn delay num (Suc left) s =
     (case fn num s of
        (Inr v, s') \<Rightarrow> (Inr v, s')
      | (Inl e, s') \<Rightarrow> retry_from fn delay (Suc num) left (s'\<lparr>trace := trace s' @ [Backoff delay]\<rparr>))"

text \<open>
  Modelled from the spec: \<open>retry(fn, {retries, minTimeout})\<close> starts the loop at attempt 1.
\<close>

definition retry ::
  "(nat \<Rightarrow> state \<Rightarrow> (error + 'a) \<times> state) \<Rightarrow> retry_options \<Rightarrow> state \<Rightarrow> (error + 'a) \<times> state"
where
  "retry fn ro s = retry_from fn (minTimeout ro) 1 (retries ro) s"

subsection \<open>The module functions\<close>

definition checkResponseStatus :: "response \<Rightarrow> options \<Rightarrow> int list \<Rightarrow> error + bool" where
  "checkResponseStatus res ops allowed =
     (if indexOf allowed (status res) > - 1 then Inr True
      else if status res = 308 then Inl UploadIncompleteError
      else if status res = 201 \<or> status res = 200 then
        Inl (FileAlreadyUploadedError (id' ops) (url ops))
      else if status res = 404 then Inl (UrlNotFoundError (url ops))
      else if status res = 500 \<or> status res = 502 \<or> status res = 503 \<or> status res = 504 then
        Inl (UploadFailedError (status res))
      else Inl (UnknownResponseError res))"

text \<open>
  \<open>safePut(url, body, {headers, onUploadProgress})\<close>. \<open>caught\<close> is its \<open>try\<close>/\<open>catch\<close>: a
  rejection with an \<open>Error\<close> is thrown again, a rejection with anything else is returned
  like a response. The request goes to the transport, and the transport reports progress
  to \<open>onUploadProgress\<close> when the caller passed one.
\<close>

definition caught :: "put_result \<Rightarrow> error + response" where
  "caught r =
     (case r of
        Resolves res \<Rightarrow> Inr res
      | RejectsError \<Rightarrow> Inl TransportError
      | RejectsValue e \<Rightarrow> Inr e)"

definition safePut ::
  "put_reply \<Rightarrow> string option \<Rightarrow> bytes option \<Rightarrow> (string \<times> string) list \<Rightarrow>
   (int \<Rightarrow> event) option \<Rightarrow> state \<Rightarrow> (error + response) \<times> state"
where
  "safePut reply u body hs onUploadProgress s =
     (let reported = (case onUploadProgress of None \<Rightarrow> [] | Some f \<Rightarrow> map f (loaded reply))
      in (caught (settles reply), s\<lparr>trace := trace s @ [Put u body hs] @ reported\<rparr>))"

subsection \<open>The class Upload\<close>

text \<open>
  The constructor. \<open>opts\<close> is \<open>args\<close> spread over the defaults. \<open>store\<close> is the content of
  \<open>opts.storage\<close> (by default \<open>window.localStorage\<close>) when the session is built. A
  \<open>throw\<close> is the result \<open>Inl\<close>.
\<close>

definition Upload ::
  "args \<Rightarrow> bool \<Rightarrow> (string option \<Rightarrow> (int \<rightharpoonup> string)) \<Rightarrow> error + state"
where
  "Upload a allowSmallChunks store =
     (let ops = \<lparr>chunkSize = (case arg_chunkSize a of None \<Rightarrow> MIN_CHUNK_SIZE | Some v \<Rightarrow> v),
                 contentType = (case arg_contentType a of None \<Rightarrow> ''text/plain'' | Some v \<Rightarrow> v),
                 id' = arg_id a,
                 url = arg_url a,
                 backoffMillis = (case arg_backoffMillis a of None \<Rightarrow> 1000 | Some v \<Rightarrow> v),
                 backoffRetryLimit = (case arg_backoffRetryLimit a of None \<Rightarrow> 5 | Some v \<Rightarrow> v),
                 others = arg_others a\<rparr>
      in if (js_rem (chunkSize ops) MIN_CHUNK_SIZE \<noteq> 0 \<or> chunkSize ops = 0) \<and> \<not> allowSmallChunks
         then Inl (InvalidChunkSizeError (chunkSize ops))
         else if \<not> truthy (id' ops)
         then Inl (MissingOptionsError ''The 'id' option is required'')
         else if \<not> truthy (url ops)
         then Inl (MissingOptionsError ''The 'url' option is required'')
         else Inr \<lparr>paused = False, unpauseHandlers = [], spark = [], opts = ops,
                   meta = FileMeta (id' ops) 0 (chunkSize ops),
                   storage = store, jobs = [], trace = []\<rparr>)"

text \<open>
  One attempt of \<open>uploadChunk\<close>: the function passed to \<open>retry\<close>. \<open>net num\<close> is what the
  transport does with the request of attempt \<open>num\<close>.
\<close>

definition attempt ::
  "(nat \<Rightarrow> put_reply) \<Rightarrow> options \<Rightarrow> int \<Rightarrow> bytes \<Rightarrow> nat \<Rightarrow> state \<Rightarrow> (error + unit) \<times> state"
where
  "attempt net ops index chunk num s =
     (let start = index * chunkSize ops;
          end = index * chunkSize ops + int (length chunk) - 1;
          hs = [(''Content-Type'', contentType ops),
                (''Content-Range'', ''bytes '' @ show_int start @ ''-'' @ show_int end @ ''/*'')];
          onUploadProgress = (\<lambda>l. OnProgress
             \<lparr>uploadedBytes = start + l, chunkIndex = index,
              chunkLength = int (length chunk), totalBytes = start + int (length chunk)\<rparr>)
      in case safePut (net num) (url ops) (Some chunk) hs (Some onUploadProgress) s of
           (Inl e, s') \<Rightarrow> (Inl e, s')
         | (Inr res, s') \<Rightarrow>
             (case checkResponseStatus res ops [200, 201, 308] of
                Inl e \<Rightarrow> (Inl e, s')
              | Inr _ \<Rightarrow> (Inr (), s')))"

text \<open>\<open>uploadChunk\<close> from the line after the pause gate to its end.\<close>

definition uploadChunk_resume ::
  "(bytes \<Rightarrow> string) \<Rightarrow> (nat \<Rightarrow> put_reply) \<Rightarrow> int \<Rightarrow> bytes \<Rightarrow> state \<Rightarrow> unit outcome \<times> state"
where
  "uploadChunk_resume md5 net index chunk s =
     (let ops = opts s;
          end = index * chunkSize ops + int (length chunk) - 1;
          (checksum, s1) = getChecksum md5 chunk s
      in case retry (attempt net ops index chunk)
                \<lparr>retries = backoffRetryLimit ops, minTimeout = backoffMillis ops\<rparr> s1 of
           (Inl err, s2) \<Rightarrow> (Rejected UploadUnableToRecoverError, s2)
         | (Inr _, s2) \<Rightarrow>
             (let s3 = addChecksum index checksum s2
              in (Resolved (),
                  s3\<lparr>trace := trace s3 @ [OnChunkUpload
                      \<lparr>uploadedBytes = end + 1, chunkIndex = index,
                       chunkLength = int (length chunk)\<rparr>]\<rparr>)))"

text \<open>
  \<open>waitForUnpause\<close> registers the continuation of the caller; the caller stays suspended.
\<close>

definition waitForUnpause :: "int \<times> bytes \<Rightarrow> state \<Rightarrow> state" where
  "waitForUnpause k s = s\<lparr>unpauseHandlers := unpauseHandlers s @ [k]\<rparr>"

text \<open>
  A call of \<open>uploadChunk\<close>, up to the point where it suspends at the gate or, when the
  session is not paused, to its end.
\<close>

definition uploadChunk ::
  "(bytes \<Rightarrow> string) \<Rightarrow> (nat \<Rightarrow> put_reply) \<Rightarrow> int \<Rightarrow> bytes \<Rightarrow> state \<Rightarrow> unit outcome \<times> state"
where
  "uploadChunk md5 net index chunk s =
     (if paused s then (Pending, waitForUnpause (index, chunk) s)
      else uploadChunk_resume md5 net index chunk s)"

definition getRemoteResumeIndex :: "put_reply \<Rightarrow> state \<Rightarrow> jsnumber outcome \<times> state" where
  "getRemoteResumeIndex reply s =
     (let ops = opts s;
          hs = [(''Content-Range'', ''bytes */*'')]
      in case safePut reply (url ops) None hs None s of
           (Inl e, s') \<Rightarrow> (Rejected e, s')
         | (Inr res, s') \<Rightarrow>
             (case checkResponseStatus res ops [308] of
                Inl e \<Rightarrow> (Rejected e, s')
              | Inr _ \<Rightarrow>
                  (case map_of (headers res) ''range'' of
                     None \<Rightarrow> (Rejected TypeError, s')
                   | Some header \<Rightarrow>
                       (case range_match header of
                          None \<Rightarrow> (Rejected TypeError, s')
                        | Some (g1, g2) \<Rightarrow>
                            (let bytesReceived = parseInt g2 + 1
                             in (Resolved (floor_quotient bytesReceived (chunkSize ops)), s'))))))"

definition pause :: "state \<Rightarrow> state" where
  "pause s = s\<lparr>paused := True\<rparr>"

text \<open>
  \<open>unpause\<close> calls every handler once, in order, and empties the list. Calling a handler
  resolves the promise of a suspended call, which puts its continuation on the job queue.
\<close>

definition unpause :: "state \<Rightarrow> state" where
  "unpause s =
     (let s1 = s\<lparr>paused := False\<rparr>;
          s2 = foldl (\<lambda>t fn. t\<lparr>jobs := jobs t @ [fn]\<rparr>) s1 (unpauseHandlers s1)
      in s2\<lparr>unpauseHandlers := []\<rparr>)"

definition cancel :: "state \<Rightarrow> state" where
  "cancel s = reset s"

text \<open>
  The event loop runs the next job: the continuation of a released \<open>uploadChunk\<close> call,
  which goes on after the gate without looking at \<open>paused\<close> again.
\<close>

definition run_job ::
  "(bytes \<Rightarrow> string) \<Rightarrow> (nat \<Rightarrow> put_reply) \<Rightarrow> state \<Rightarrow> unit outcome option \<times> state"
where
  "run_job md5 net s =
     (case jobs s of
        [] \<Rightarrow> (None, s)
      | (index, chunk) # rest \<Rightarrow>
          (case uploadChunk_resume md5 net index chunk (s\<lparr>jobs := rest\<rparr>) of
             (r, s') \<Rightarrow> (Some r, s')))"

subsection \<open>Runs, and what a trace shows\<close>

text \<open>
  The calls a client can make, with the replies of the transport as data, and the step of
  the event loop that runs a released continuation. \<open>run\<close> performs a sequence of them
  and drops the results.
\<close>

datatype call =
    Call_uploadChunk "nat \<Rightarrow> put_reply" int bytes
  | Call_getRemoteResumeIndex put_reply
  | Call_pause
  | Call_unpause
  | Call_cancel
  | Run_job "nat \<Rightarrow> put_reply"

fun step :: "(bytes \<Rightarrow> string) \<Rightarrow> state \<Rightarrow> call \<Rightarrow> state" where
  "step md5 s (Call_uploadChunk net index chunk) = snd (uploadChunk md5 net index chunk s)"
| "step md5 s (Call_getRemoteResumeIndex reply) = snd (getRemoteResumeIndex reply s)"
| "step md5 s Call_pause = pause s"
| "step md5 s Call_unpause = unpause s"
| "step md5 s Call_cancel = cancel s"
| "step md5 s (Run_job net) = snd (run_job md5 net s)"

definition run :: "(bytes \<Rightarrow> string) \<Rightarrow> call list \<Rightarrow> state \<Rightarrow> state" where
  "run md5 calls s = foldl (step md5) s calls"

text \<open>
  The transport's reply lets an attempt of \<open>uploadChunk\<close> pass: \<open>safePut\<close> returns a
  response, and its status is one of those \<open>uploadChunk\<close> hands to the classifier.
\<close>

definition accepted :: "put_reply \<Rightarrow> bool" where
  "accepted reply =
     (case caught (settles reply) of
        Inl e \<Rightarrow> False
      | Inr res \<Rightarrow> status res \<in> {200, 201, 308})"

fun is_put :: "event \<Rightarrow> bool" where
  "is_put (Put u body hs) = True"
| "is_put e = False"

text \<open>The requests in a trace, and the waits of the retry helper in a trace.\<close>

definition puts :: "event list \<Rightarrow> event list" where
  "puts tr = filter is_put tr"

fun backoffs :: "event list \<Rightarrow> int list" where
  "backoffs [] = []"
| "backoffs (Backoff d # tr) = d # backoffs tr"
| "backoffs (e # tr) = backoffs tr"

text \<open>The events of the transport and of the retry helper.\<close>

fun transport_event :: "event \<Rightarrow> bool" where
  "transport_event (Put u body hs) = True"
| "transport_event (OnProgress p) = True"
| "transport_event (Backoff d) = True"
| "transport_event e = False"

text \<open>The smallest configuration: \<open>{id: "x", url: "http://h"}\<close>.\<close>

definition minimal_args :: args where
  "minimal_args =
     \<lparr>arg_chunkSize = None, arg_contentType = None, arg_id = Some ''x'',
      arg_url = Some ''http://h'', arg_backoffMillis = None, arg_backoffRetryLimit = None,
      arg_others = []\<rparr>"

text \<open>The session the constructor builds from it, over an empty store.\<close>

definition new_session :: state where
  "new_session =
     \<lparr>paused = False, unpauseHandlers = [], spark = [],
      opts = \<lparr>chunkSize = 262144, contentType = ''text/plain'', id' = Some ''x'',
              url = Some ''http://h'', backoffMillis = 1000, backoffRetryLimit = 5,
              others = []\<rparr>,
      meta = \<lparr>meta_id = Some ''x'', meta_fileSize = 0, meta_chunkSize = 262144\<rparr>,
      storage = (\<lambda>k. Map.empty), jobs = [], trace = []\<rparr>"

text \<open>A transport that answers every request with the given status.\<close>

definition always :: "int \<Rightarrow> nat \<Rightarrow> put_reply" where
  "always st num = \<lparr>loaded = [], settles = Resolves \<lparr>status = st, headers = []\<rparr>\<rparr>"

text \<open>
  Two further configurations and the sessions the constructor builds from them: one with
  a property named \<open>backoffDelayMillis\<close>, a name the constructor knows nothing of, and one
  that sets \<open>backoffMillis\<close> and \<open>backoffRetryLimit\<close> as well.
\<close>

definition misnamed_args :: args where
  "misnamed_args = minimal_args\<lparr>arg_others := [(''backoffDelayMillis'', 50)]\<rparr>"

definition misnamed_session :: state where
  "misnamed_session =
     new_session\<lparr>opts := (opts new_session)\<lparr>others := [(''backoffDelayMillis'', 50)]\<rparr>\<rparr>"

definition tuned_args :: args where
  "tuned_args =
     minimal_args\<lparr>arg_backoffMillis := Some 250, arg_backoffRetryLimit := Some 2,
       arg_others := [(''backoffDelayMillis'', 50)]\<rparr>"

definition tuned_session :: state where
  "tuned_session =
     new_session\<lparr>opts := (opts new_session)\<lparr>backoffMillis := 250, backoffRetryLimit := 2,
       others := [(''backoffDelayMillis'', 50)]\<rparr>\<rparr>"

text \<open>The answer to a status probe after two chunks of 262144 bytes.\<close>

definition probe_reply :: put_reply where
  "probe_reply =
     \<lparr>loaded = [],
      settles = Resolves \<lparr>status = 308, headers = [(''range'', ''bytes=0-524287'')]\<rparr>\<rparr>"

section \<open>Properties\<close>

subsection \<open>Arithmetic and list lemmas\<close>

lemma js_rem_dvd: "(js_rem a b \<noteq> 0) = (\<not> b dvd a)"
proof -
  have "(js_rem a b = 0) = (a = 0 \<or> \<bar>b\<bar> dvd \<bar>a\<bar>)"
    unfolding js_rem_def by (simp add: mod_eq_0_iff_dvd sgn_eq_0_iff)
  also have "\<dots> = (b dvd a)" by auto
  finally show ?thesis by simp
qed

lemma indexOf_from_found: "0 \<le> i \<Longrightarrow> (indexOf_from i xs x > - 1) = (x \<in> set xs)"
  by (induction xs arbitrary: i) auto

lemma indexOf_found: "(indexOf xs x > - 1) = (x \<in> set xs)"
  by (simp add: indexOf_def indexOf_from_found)

subsection \<open>The response classifier\<close>

lemma checkResponseStatus_cases:
  "checkResponseStatus res ops allowed =
     (if status res \<in> set allowed then Inr True
      else if status res = 308 then Inl UploadIncompleteError
      else if status res \<in> {200, 201} then
        Inl (FileAlreadyUploadedError (id' ops) (url ops))
      else if status res = 404 then Inl (UrlNotFoundError (url ops))
      else if status res \<in> {500, 502, 503, 504} then Inl (UploadFailedError (status res))
      else Inl (UnknownResponseError res))"
  unfolding checkResponseStatus_def indexOf_found by simp

lemma checkResponseStatus_success:
  "(\<exists>v. checkResponseStatus res ops allowed = Inr v) = (status res \<in> set allowed)"
  unfolding checkResponseStatus_cases by auto

text \<open>
  Claim C3. For every status and every allow-list the classifier succeeds exactly when
  the status is in the allow-list; otherwise 308 raises \<open>UploadIncompleteError\<close>, 200 and
  201 raise \<open>FileAlreadyUploadedError\<close>, 404 raises \<open>UrlNotFoundError\<close>, 500, 502, 503 and
  504 raise \<open>UploadFailedError\<close> with the status, and every other status raises
  \<open>UnknownResponseError\<close> with the response. Status 200 succeeds under the allow-list
  \<open>[200, 201, 308]\<close> and raises \<open>FileAlreadyUploadedError\<close> under the empty one.
\<close>

theorem checkResponseStatus_classifies:
  "checkResponseStatus res ops allowed =
     (if status res \<in> set allowed then Inr True
      else if status res = 308 then Inl UploadIncompleteError
      else if status res \<in> {200, 201} then
        Inl (FileAlreadyUploadedError (id' ops) (url ops))
      else if status res = 404 then Inl (UrlNotFoundError (url ops))
      else if status res \<in> {500, 502, 503, 504} then Inl (UploadFailedError (status res))
      else Inl (UnknownResponseError res))
   \<and> ((\<exists>v. checkResponseStatus res ops allowed = Inr v) = (status res \<in> set allowed))
   \<and> checkResponseStatus \<lparr>status = 200, headers = hs\<rparr> ops [200, 201, 308] = Inr True
   \<and> checkResponseStatus \<lparr>status = 200, headers = hs\<rparr> ops [] =
       Inl (FileAlreadyUploadedError (id' ops) (url ops))"
proof (intro conjI)
  show "checkResponseStatus \<lparr>status = 200, headers = hs\<rparr> ops [200, 201, 308] = Inr True"
    unfolding checkResponseStatus_cases by simp
  show "checkResponseStatus \<lparr>status = 200, headers = hs\<rparr> ops [] =
      Inl (FileAlreadyUploadedError (id' ops) (url ops))"
    unfolding checkResponseStatus_cases by simp
qed (rule checkResponseStatus_cases checkResponseStatus_success)+

theorem checkResponseStatus_classifies_witness:
  "checkResponseStatus \<lparr>status = 404, headers = []\<rparr> (opts new_session) [308] =
     Inl (UrlNotFoundError (Some ''http://h''))
   \<and> checkResponseStatus \<lparr>status = 308, headers = []\<rparr> (opts new_session) [308] = Inr True
   \<and> checkResponseStatus \<lparr>status = 308, headers = []\<rparr> (opts new_session) [] =
     Inl UploadIncompleteError"
  using checkResponseStatus_classifies [of "\<lparr>status = 404, headers = []\<rparr>" "opts new_session" "[308]" "[]",
      THEN conjunct1]
    checkResponseStatus_classifies [of "\<lparr>status = 308, headers = []\<rparr>" "opts new_session" "[308]" "[]",
      THEN conjunct1]
    checkResponseStatus_classifies [of "\<lparr>status = 308, headers = []\<rparr>" "opts new_session" "[]" "[]",
      THEN conjunct1]
  by (simp add: new_session_def)

subsection \<open>The constructor\<close>

lemma Upload_invalid_chunkSize:
  assumes "c = (case arg_chunkSize a of None \<Rightarrow> 262144 | Some v \<Rightarrow> v)"
    and "(c = 0 \<or> \<not> 262144 dvd c) \<and> \<not> allow"
  shows "Upload a allow store = Inl (InvalidChunkSizeError c)"
  using assms unfolding Upload_def Let_def js_rem_dvd MIN_CHUNK_SIZE_def by auto

lemma Upload_missing_id:
  assumes "c = (case arg_chunkSize a of None \<Rightarrow> 262144 | Some v \<Rightarrow> v)"
    and "\<not> ((c = 0 \<or> \<not> 262144 dvd c) \<and> \<not> allow)"
    and "arg_id a = None"
  shows "Upload a allow store = Inl (MissingOptionsError ''The 'id' option is required'')"
  using assms unfolding Upload_def Let_def js_rem_dvd MIN_CHUNK_SIZE_def
  by (auto simp: truthy_def)

lemma Upload_missing_url:
  assumes "c = (case arg_chunkSize a of None \<Rightarrow> 262144 | Some v \<Rightarrow> v)"
    and "\<not> ((c = 0 \<or> \<not> 262144 dvd c) \<and> \<not> allow)"
    and "arg_id a \<noteq> None" and "arg_url a = None"
  shows "\<exists>m. Upload a allow store = Inl (MissingOptionsError m)"
  using assms unfolding Upload_def Let_def js_rem_dvd MIN_CHUNK_SIZE_def
  by (auto simp: truthy_def)

lemma Upload_minimal_args:
  "Upload minimal_args allow store =
     Inr \<lparr>paused = False, unpauseHandlers = [], spark = [],
          opts = \<lparr>chunkSize = 262144, contentType = ''text/plain'', id' = Some ''x'',
                  url = Some ''http://h'', backoffMillis = 1000, backoffRetryLimit = 5,
                  others = []\<rparr>,
          meta = \<lparr>meta_id = Some ''x'', meta_fileSize = 0, meta_chunkSize = 262144\<rparr>,
          storage = store, jobs = [], trace = []\<rparr>"
  unfolding Upload_def Let_def js_rem_dvd MIN_CHUNK_SIZE_def minimal_args_def FileMeta_def
  by (simp add: truthy_def)

text \<open>
  Claim C4. Let \<open>c\<close> be the chunk size after the defaults: the one of \<open>args\<close>, or 262144.
  If \<open>c\<close> is zero or no multiple of 262144 and small chunks are not allowed, the
  constructor throws \<open>InvalidChunkSizeError\<close>; otherwise, if \<open>id\<close> is absent, it throws
  \<open>MissingOptionsError\<close>; otherwise, if \<open>url\<close> is absent, it throws \<open>MissingOptionsError\<close>;
  and \<open>{id: "x", url: "http://h"}\<close> constructs a session whose chunk size is 262144.
\<close>

theorem Upload_validation:
  assumes "c = (case arg_chunkSize a of None \<Rightarrow> 262144 | Some v \<Rightarrow> v)"
  shows "((c = 0 \<or> \<not> 262144 dvd c) \<and> \<not> allow \<longrightarrow>
            Upload a allow store = Inl (InvalidChunkSizeError c))
       \<and> (\<not> ((c = 0 \<or> \<not> 262144 dvd c) \<and> \<not> allow) \<and> arg_id a = None \<longrightarrow>
            Upload a allow store = Inl (MissingOptionsError ''The 'id' option is required''))
       \<and> (\<not> ((c = 0 \<or> \<not> 262144 dvd c) \<and> \<not> allow) \<and> arg_id a \<noteq> None \<and> arg_url a = None \<longrightarrow>
            (\<exists>m. Upload a allow store = Inl (MissingOptionsError m)))
       \<and> (\<exists>s. Upload minimal_args allow store = Inr s \<and> chunkSize (opts s) = 262144)"
proof (intro conjI impI)
  show "\<exists>s. Upload minimal_args allow store = Inr s \<and> chunkSize (opts s) = 262144"
    unfolding Upload_minimal_args by simp
qed (use assms in \<open>auto intro: Upload_invalid_chunkSize Upload_missing_id Upload_missing_url\<close>)

theorem Upload_validation_witness:
  "Upload (minimal_args\<lparr>arg_chunkSize := Some 1000\<rparr>) False (\<lambda>k. Map.empty) =
     Inl (InvalidChunkSizeError 1000)
   \<and> Upload (minimal_args\<lparr>arg_chunkSize := Some 0\<rparr>) False (\<lambda>k. Map.empty) =
     Inl (InvalidChunkSizeError 0)
   \<and> Upload (minimal_args\<lparr>arg_id := None\<rparr>) False (\<lambda>k. Map.empty) =
     Inl (MissingOptionsError ''The 'id' option is required'')
   \<and> (\<exists>m. Upload (minimal_args\<lparr>arg_chunkSize := Some 1000, arg_url := None\<rparr>) True
           (\<lambda>k. Map.empty) = Inl (MissingOptionsError m))
   \<and> (\<exists>s. Upload minimal_args False (\<lambda>k. Map.empty) = Inr s \<and> chunkSize (opts s) = 262144)"
  using Upload_validation [of 1000 "minimal_args\<lparr>arg_chunkSize := Some 1000\<rparr>" False "\<lambda>k. Map.empty"]
    Upload_validation [of 0 "minimal_args\<lparr>arg_chunkSize := Some 0\<rparr>" False "\<lambda>k. Map.empty"]
    Upload_validation [of 262144 "minimal_args\<lparr>arg_id := None\<rparr>" False "\<lambda>k. Map.empty"]
    Upload_validation [of 1000 "minimal_args\<lparr>arg_chunkSize := Some 1000, arg_url := None\<rparr>" True
      "\<lambda>k. Map.empty"]
  by (simp add: minimal_args_def)

subsection \<open>Attempts and the retry loop\<close>

lemma map_OnProgress_transport:
  "list_all transport_event (map (\<lambda>l. OnProgress (f l)) xs)
   \<and> puts (map (\<lambda>l. OnProgress (f l)) xs) = []
   \<and> backoffs (map (\<lambda>l. OnProgress (f l)) xs) = []"
  by (induction xs) (simp_all add: puts_def)

lemma attempt_result:
  "fst (attempt net ops index chunk num s) = Inr () \<longleftrightarrow> accepted (net num)"
  unfolding attempt_def safePut_def Let_def accepted_def checkResponseStatus_cases
  by (cases "caught (settles (net num))") simp_all

lemma attempt_state:
  "\<exists>ev evs. snd (attempt net ops index chunk num s) = s\<lparr>trace := trace s @ ev # evs\<rparr>
      \<and> is_put ev \<and> list_all transport_event evs \<and> puts evs = [] \<and> backoffs evs = []"
proof -
  let ?f = "\<lambda>l. \<lparr>uploadedBytes = index * chunkSize ops + l, chunkIndex = index,
              chunkLength = int (length chunk), totalBytes = index * chunkSize ops + int (length chunk)\<rparr>"
  let ?ev = "Put (url ops) (Some chunk) [(''Content-Type'', contentType ops),
                (''Content-Range'', ''bytes '' @ show_int (index * chunkSize ops) @ ''-'' @ show_int (index * chunkSize ops + int (length chunk) - 1) @ ''/*'')]"
  have "snd (attempt net ops index chunk num s) = s\<lparr>trace := trace s @ ?ev # map (\<lambda>l. OnProgress (?f l)) (loaded (net num))\<rparr>"
    unfolding attempt_def safePut_def Let_def
    by (simp split: sum.splits)
  moreover have "is_put ?ev" by simp
  ultimately show ?thesis
    using map_OnProgress_transport [of ?f "loaded (net num)"] by blast
qed

lemma backoffs_append: "backoffs (xs @ ys) = backoffs xs @ backoffs ys"
  by (induction xs rule: backoffs.induct) simp_all

lemma puts_append: "puts (xs @ ys) = puts xs @ puts ys"
  by (simp add: puts_def)

lemma retry_from_result:
  "(fst (retry_from (attempt net ops index chunk) d num left s) = Inr ())
     = (\<exists>k. num \<le> k \<and> k \<le> num + left \<and> accepted (net k))"
proof (induction left arbitrary: num s)
  case 0
  show ?case by (auto simp: attempt_result dest: le_antisym)
next
  case (Suc left)
  obtain r s' where a: "attempt net ops index chunk num s = (r, s')"
    by (cases "attempt net ops index chunk num s")
  have r: "(r = Inr ()) = accepted (net num)"
    using attempt_result [of net ops index chunk num s] a by simp
  have split: "(\<exists>k. num \<le> k \<and> k \<le> num + Suc left \<and> accepted (net k))
      = (accepted (net num) \<or> (\<exists>k. Suc num \<le> k \<and> k \<le> Suc num + left \<and> accepted (net k)))"
    by (metis Suc_leD Suc_le_eq add_Suc_right add_Suc le_add1 le_antisym not_less_eq_eq)
  show ?case
  proof (cases r)
    case (Inl e)
    with r a Suc.IH show ?thesis unfolding split by simp
  next
    case (Inr v)
    with r a show ?thesis unfolding split by simp
  qed
qed

lemma retry_from_state:
  "\<exists>mid. snd (retry_from (attempt net ops index chunk) d num left s) = s\<lparr>trace := trace s @ mid\<rparr>
      \<and> list_all transport_event mid \<and> set (backoffs mid) \<subseteq> {d}
      \<and> ((\<forall>k. num \<le> k \<and> k \<le> num + left \<longrightarrow> \<not> accepted (net k)) \<longrightarrow>
            length (puts mid) = left + 1 \<and> backoffs mid = replicate left d)"
proof (induction left arbitrary: num s)
  case 0
  obtain ev evs where e: "snd (attempt net ops index chunk num s) = s\<lparr>trace := trace s @ ev # evs\<rparr>"
      "is_put ev" "list_all transport_event evs" "puts evs = []" "backoffs evs = []"
    using attempt_state by blast
  have "transport_event ev \<and> backoffs [ev] = [] \<and> puts [ev] = [ev]"
    using e(2) by (cases ev) (simp_all add: puts_def)
  then have "list_all transport_event (ev # evs) \<and> backoffs (ev # evs) = [] \<and> length (puts (ev # evs)) = 1"
    using e(3,4,5) backoffs_append [of "[ev]" evs] puts_append [of "[ev]" evs] by simp
  then show ?case using e(1) by (intro exI [of _ "ev # evs"]) simp
next
  case (Suc left)
  obtain r s' where a: "attempt net ops index chunk num s = (r, s')"
    by (cases "attempt net ops index chunk num s")
  obtain ev evs where e: "s' = s\<lparr>trace := trace s @ ev # evs\<rparr>"
      "is_put ev" "list_all transport_event evs" "puts evs = []" "backoffs evs = []"
    using attempt_state [of net ops index chunk num s] a by auto
  have r: "(r = Inr ()) = accepted (net num)"
    using attempt_result [of net ops index chunk num s] a by simp
  have ev: "transport_event ev \<and> backoffs [ev] = [] \<and> puts [ev] = [ev]"
    using e(2) by (cases ev) (simp_all add: puts_def)
  then have first: "list_all transport_event (ev # evs) \<and> backoffs (ev # evs) = [] \<and> length (puts (ev # evs)) = 1"
    using e(3,4,5) backoffs_append [of "[ev]" evs] puts_append [of "[ev]" evs] by simp
  show ?case
  proof (cases r)
    case (Inr v)
    then have "snd (retry_from (attempt net ops index chunk) d num (Suc left) s) = s\<lparr>trace := trace s @ ev # evs\<rparr>"
      using a e(1) by simp
    moreover have "\<not> (\<forall>k. num \<le> k \<and> k \<le> num + Suc left \<longrightarrow> \<not> accepted (net k))"
      using r Inr by auto
    ultimately show ?thesis using first by (intro exI [of _ "ev # evs"]) simp
  next
    case (Inl err)
    let ?s = "s'\<lparr>trace := trace s' @ [Backoff d]\<rparr>"
    obtain mid where m: "snd (retry_from (attempt net ops index chunk) d (Suc num) left ?s) = ?s\<lparr>trace := trace ?s @ mid\<rparr>"
       "list_all transport_event mid" "set (backoffs mid) \<subseteq> {d}"
       "(\<forall>k. Suc num \<le> k \<and> k \<le> Suc num + left \<longrightarrow> \<not> accepted (net k)) \<longrightarrow>
            length (puts mid) = left + 1 \<and> backoffs mid = replicate left d"
      using Suc.IH [of "Suc num" ?s] by blast
    let ?all = "(ev # evs) @ [Backoff d] @ mid"
    have 1: "snd (retry_from (attempt net ops index chunk) d num (Suc left) s) = s\<lparr>trace := trace s @ ?all\<rparr>"
      using a Inl m(1) e(1) by simp
    have 2: "list_all transport_event ?all" using first m(2) by simp
    have "backoffs ?all = backoffs (ev # evs) @ backoffs ([Backoff d] @ mid)"
      by (rule backoffs_append)
    then have b: "backoffs ?all = d # backoffs mid"
      using first by simp
    have p: "puts ?all = puts (ev # evs) @ puts mid"
      by (simp add: puts_def)
    have 3: "set (backoffs ?all) \<subseteq> {d}" using b m(3) by simp
    have 4: "(\<forall>k. num \<le> k \<and> k \<le> num + Suc left \<longrightarrow> \<not> accepted (net k)) \<longrightarrow>
            length (puts ?all) = Suc left + 1 \<and> backoffs ?all = replicate (Suc left) d"
    proof
      assume h: "\<forall>k. num \<le> k \<and> k \<le> num + Suc left \<longrightarrow> \<not> accepted (net k)"
      then have "\<forall>k. Suc num \<le> k \<and> k \<le> Suc num + left \<longrightarrow> \<not> accepted (net k)" by simp
      with m(4) have "length (puts mid) = left + 1 \<and> backoffs mid = replicate left d" by blast
      then show "length (puts ?all) = Suc left + 1 \<and> backoffs ?all = replicate (Suc left) d"
        using b p first by simp
    qed
    show ?thesis using 1 2 3 4 by (intro exI [of _ ?all] conjI)
  qed
qed


lemma uploadChunk_resume_effect:
  "\<exists>mid. list_all transport_event mid \<and> set (backoffs mid) \<subseteq> {backoffMillis (opts s)}
     \<and> ((\<forall>k. 1 \<le> k \<and> k \<le> backoffRetryLimit (opts s) + 1 \<longrightarrow> \<not> accepted (net k)) \<longrightarrow>
           length (puts mid) = backoffRetryLimit (opts s) + 1
           \<and> backoffs mid = replicate (backoffRetryLimit (opts s)) (backoffMillis (opts s)))
     \<and> uploadChunk_resume md5 net index chunk s =
        (if \<exists>k. 1 \<le> k \<and> k \<le> backoffRetryLimit (opts s) + 1 \<and> accepted (net k)
         then (Resolved (),
               s\<lparr>spark := spark s @ chunk,
                 storage := (storage s)(meta_id (meta s) :=
                    (storage s (meta_id (meta s)))(index \<mapsto> md5 (spark s @ chunk))),
                 trace := trace s @ Append chunk # mid @
                   [StoragePut (meta_id (meta s)) index (md5 (spark s @ chunk)),
                    OnChunkUpload \<lparr>uploadedBytes = index * chunkSize (opts s) + int (length chunk),
                      chunkIndex = index, chunkLength = int (length chunk)\<rparr>]\<rparr>)
         else (Rejected UploadUnableToRecoverError,
               s\<lparr>spark := spark s @ chunk, trace := trace s @ Append chunk # mid\<rparr>))"
proof -
  let ?s1 = "s\<lparr>spark := spark s @ chunk, trace := trace s @ [Append chunk]\<rparr>"
  let ?lim = "backoffRetryLimit (opts s)"
  let ?d = "backoffMillis (opts s)"
  let ?run = "retry_from (attempt net (opts s) index chunk) ?d 1 ?lim ?s1"
  obtain r s2 where run: "?run = (r, s2)" by (cases ?run)
  obtain mid where m: "s2 = ?s1\<lparr>trace := trace ?s1 @ mid\<rparr>"
      "list_all transport_event mid" "set (backoffs mid) \<subseteq> {?d}"
      "(\<forall>k. 1 \<le> k \<and> k \<le> 1 + ?lim \<longrightarrow> \<not> accepted (net k)) \<longrightarrow>
         length (puts mid) = ?lim + 1 \<and> backoffs mid = replicate ?lim ?d"
    using retry_from_state [of net "opts s" index chunk ?d 1 ?lim ?s1] run by auto
  have r: "(r = Inr ()) = (\<exists>k. 1 \<le> k \<and> k \<le> ?lim + 1 \<and> accepted (net k))"
    using retry_from_result [of net "opts s" index chunk ?d 1 ?lim ?s1] run by (simp add: add.commute)
  have eq: "uploadChunk_resume md5 net index chunk s =
       (case r of
          Inl err \<Rightarrow> (Rejected UploadUnableToRecoverError, s2)
        | Inr v \<Rightarrow> (Resolved (),
             s2\<lparr>storage := (storage s2)(meta_id (meta s2) :=
                    (storage s2 (meta_id (meta s2)))(index \<mapsto> md5 (spark s @ chunk))),
                trace := trace s2 @
                   [StoragePut (meta_id (meta s2)) index (md5 (spark s @ chunk)),
                    OnChunkUpload \<lparr>uploadedBytes = index * chunkSize (opts s) + int (length chunk) - 1 + 1,
                      chunkIndex = index, chunkLength = int (length chunk)\<rparr>]\<rparr>))"
    unfolding uploadChunk_resume_def getChecksum_def retry_def Let_def addChecksum_def
    using run by (simp split: sum.splits)
  show ?thesis
  proof (cases r)
    case (Inl err)
    then have "\<not> (\<exists>k. 1 \<le> k \<and> k \<le> ?lim + 1 \<and> accepted (net k))" using r by simp
    moreover have "uploadChunk_resume md5 net index chunk s =
        (Rejected UploadUnableToRecoverError, s\<lparr>spark := spark s @ chunk, trace := trace s @ Append chunk # mid\<rparr>)"
      using eq Inl m(1) by simp
    ultimately show ?thesis using m(2,3,4) by (intro exI [of _ mid]) (simp add: add.commute)
  next
    case (Inr v)
    then have ok: "\<exists>k. 1 \<le> k \<and> k \<le> ?lim + 1 \<and> accepted (net k)" using r by simp
    have "uploadChunk_resume md5 net index chunk s =
        (Resolved (),
               s\<lparr>spark := spark s @ chunk,
                 storage := (storage s)(meta_id (meta s) :=
                    (storage s (meta_id (meta s)))(index \<mapsto> md5 (spark s @ chunk))),
                 trace := trace s @ Append chunk # mid @
                   [StoragePut (meta_id (meta s)) index (md5 (spark s @ chunk)),
                    OnChunkUpload \<lparr>uploadedBytes = index * chunkSize (opts s) + int (length chunk),
                      chunkIndex = index, chunkLength = int (length chunk)\<rparr>]\<rparr>)"
      using eq Inr m(1) by simp
    then show ?thesis using ok m(2,3,4) by (intro exI [of _ mid]) (simp add: add.commute)
  qed
qed


lemma puts_transport_free: "puts (Append c # mid) = puts mid"
  by (simp add: puts_def)

subsection \<open>Chunk upload\<close>

text \<open>
  Claim C1. \<open>uploadChunk_resume\<close> is \<open>uploadChunk\<close> past the pause gate. If every
  attempt within the budget fails (the transport throws, or the classifier rejects the
  status, as with a transport that always answers 500), the call sends exactly
  \<open>backoffRetryLimit + 1\<close> requests and rejects with \<open>UploadUnableToRecoverError\<close>; and
  whatever the transport does, \<open>UploadUnableToRecoverError\<close> is the only error the call
  rejects with.
\<close>

theorem uploadChunk_unable_to_recover:
  "((\<forall>n. 1 \<le> n \<and> n \<le> backoffRetryLimit (opts s) + 1 \<longrightarrow> \<not> accepted (net n)) \<longrightarrow>
      (\<exists>s'. uploadChunk_resume md5 net index chunk s = (Rejected UploadUnableToRecoverError, s')
         \<and> length (puts (trace s')) = length (puts (trace s)) + (backoffRetryLimit (opts s) + 1)))
   \<and> (\<forall>e s'. uploadChunk_resume md5 net index chunk s = (Rejected e, s') \<longrightarrow>
         e = UploadUnableToRecoverError)
   \<and> (\<forall>e s'. uploadChunk md5 net index chunk s = (Rejected e, s') \<longrightarrow>
         e = UploadUnableToRecoverError)"
proof -
  obtain mid where m:
    "(\<forall>k. 1 \<le> k \<and> k \<le> backoffRetryLimit (opts s) + 1 \<longrightarrow> \<not> accepted (net k)) \<longrightarrow>
           length (puts mid) = backoffRetryLimit (opts s) + 1
           \<and> backoffs mid = replicate (backoffRetryLimit (opts s)) (backoffMillis (opts s))"
    "uploadChunk_resume md5 net index chunk s =
        (if \<exists>k. 1 \<le> k \<and> k \<le> backoffRetryLimit (opts s) + 1 \<and> accepted (net k)
         then (Resolved (),
               s\<lparr>spark := spark s @ chunk,
                 storage := (storage s)(meta_id (meta s) :=
                    (storage s (meta_id (meta s)))(index \<mapsto> md5 (spark s @ chunk))),
                 trace := trace s @ Append chunk # mid @
                   [StoragePut (meta_id (meta s)) index (md5 (spark s @ chunk)),
                    OnChunkUpload \<lparr>uploadedBytes = index * chunkSize (opts s) + int (length chunk),
                      chunkIndex = index, chunkLength = int (length chunk)\<rparr>]\<rparr>)
         else (Rejected UploadUnableToRecoverError,
               s\<lparr>spark := spark s @ chunk, trace := trace s @ Append chunk # mid\<rparr>))"
    using uploadChunk_resume_effect [of s net md5 index chunk] by blast
  have 1: "(\<forall>n. 1 \<le> n \<and> n \<le> backoffRetryLimit (opts s) + 1 \<longrightarrow> \<not> accepted (net n)) \<longrightarrow>
      (\<exists>s'. uploadChunk_resume md5 net index chunk s = (Rejected UploadUnableToRecoverError, s')
         \<and> length (puts (trace s')) = length (puts (trace s)) + (backoffRetryLimit (opts s) + 1))"
  proof
    assume h: "\<forall>n. 1 \<le> n \<and> n \<le> backoffRetryLimit (opts s) + 1 \<longrightarrow> \<not> accepted (net n)"
    then have "uploadChunk_resume md5 net index chunk s = (Rejected UploadUnableToRecoverError,
               s\<lparr>spark := spark s @ chunk, trace := trace s @ Append chunk # mid\<rparr>)"
      using m(2) by auto
    moreover have "length (puts (trace s @ Append chunk # mid)) =
        length (puts (trace s)) + (backoffRetryLimit (opts s) + 1)"
      using m(1) h by (simp add: puts_append puts_transport_free)
    ultimately show "\<exists>s'. uploadChunk_resume md5 net index chunk s = (Rejected UploadUnableToRecoverError, s')
         \<and> length (puts (trace s')) = length (puts (trace s)) + (backoffRetryLimit (opts s) + 1)"
      by simp
  qed
  have 2: "\<forall>e s'. uploadChunk_resume md5 net index chunk s = (Rejected e, s') \<longrightarrow>
         e = UploadUnableToRecoverError"
    using m(2) by (simp split: if_splits)
  have 3: "\<forall>e s'. uploadChunk md5 net index chunk s = (Rejected e, s') \<longrightarrow>
         e = UploadUnableToRecoverError"
    using 2 by (simp add: uploadChunk_def)
  show ?thesis using 1 2 3 by (intro conjI)
qed

lemma always_500_rejected: "\<not> accepted (always 500 n)"
  by (simp add: accepted_def always_def caught_def)

theorem uploadChunk_unable_to_recover_witness:
  "\<exists>s'. uploadChunk_resume (\<lambda>b. []) (always 500) 0 [1, 2, 3] new_session =
           (Rejected UploadUnableToRecoverError, s')
        \<and> length (puts (trace s')) = 6"
proof -
  have h: "\<forall>n. 1 \<le> n \<and> n \<le> backoffRetryLimit (opts new_session) + 1 \<longrightarrow> \<not> accepted (always 500 n)"
    by (simp add: always_500_rejected)
  show ?thesis
    using uploadChunk_unable_to_recover [of new_session "always 500" "\<lambda>b. []" 0 "[1, 2, 3]",
        THEN conjunct1, THEN mp, OF h]
    by (simp add: new_session_def puts_def)
qed

lemma uploadChunk_resume_success:
  assumes "1 \<le> k" "k \<le> backoffRetryLimit (opts s) + 1" "accepted (net k)"
  shows "\<exists>mid. list_all transport_event mid \<and> uploadChunk_resume hash net index chunk s =
          (Resolved (),
           s\<lparr>spark := spark s @ chunk,
             storage := (storage s)(meta_id (meta s) :=
                (storage s (meta_id (meta s)))(index \<mapsto> hash (spark s @ chunk))),
             trace := trace s @ Append chunk # mid @
               [StoragePut (meta_id (meta s)) index (hash (spark s @ chunk)),
                OnChunkUpload \<lparr>uploadedBytes = index * chunkSize (opts s) + int (length chunk),
                  chunkIndex = index, chunkLength = int (length chunk)\<rparr>]\<rparr>)"
proof -
  have ok: "\<exists>k. 1 \<le> k \<and> k \<le> backoffRetryLimit (opts s) + 1 \<and> accepted (net k)"
    using assms by blast
  obtain mid where "list_all transport_event mid"
    "uploadChunk_resume hash net index chunk s =
        (if \<exists>k. 1 \<le> k \<and> k \<le> backoffRetryLimit (opts s) + 1 \<and> accepted (net k)
         then (Resolved (),
               s\<lparr>spark := spark s @ chunk,
                 storage := (storage s)(meta_id (meta s) :=
                    (storage s (meta_id (meta s)))(index \<mapsto> hash (spark s @ chunk))),
                 trace := trace s @ Append chunk # mid @
                   [StoragePut (meta_id (meta s)) index (hash (spark s @ chunk)),
                    OnChunkUpload \<lparr>uploadedBytes = index * chunkSize (opts s) + int (length chunk),
                      chunkIndex = index, chunkLength = int (length chunk)\<rparr>]\<rparr>)
         else (Rejected UploadUnableToRecoverError,
               s\<lparr>spark := spark s @ chunk, trace := trace s @ Append chunk # mid\<rparr>))"
    using uploadChunk_resume_effect [of s net hash index chunk] by blast
  then show ?thesis using ok by (intro exI [of _ mid]) (simp only: if_True simp_thms)
qed

lemma uploadChunk_resume_frame:
  "\<exists>rest. snd (uploadChunk_resume hash net index chunk s) =
      s\<lparr>spark := spark s @ chunk,
        storage := storage (snd (uploadChunk_resume hash net index chunk s)),
        trace := trace s @ Append chunk # rest\<rparr>"
proof -
  obtain mid where
    "uploadChunk_resume hash net index chunk s =
        (if \<exists>k. 1 \<le> k \<and> k \<le> backoffRetryLimit (opts s) + 1 \<and> accepted (net k)
         then (Resolved (),
               s\<lparr>spark := spark s @ chunk,
                 storage := (storage s)(meta_id (meta s) :=
                    (storage s (meta_id (meta s)))(index \<mapsto> hash (spark s @ chunk))),
                 trace := trace s @ Append chunk # mid @
                   [StoragePut (meta_id (meta s)) index (hash (spark s @ chunk)),
                    OnChunkUpload \<lparr>uploadedBytes = index * chunkSize (opts s) + int (length chunk),
                      chunkIndex = index, chunkLength = int (length chunk)\<rparr>]\<rparr>)
         else (Rejected UploadUnableToRecoverError,
               s\<lparr>spark := spark s @ chunk, trace := trace s @ Append chunk # mid\<rparr>))"
    using uploadChunk_resume_effect [of s net hash index chunk] by blast
  then show ?thesis
    by (cases "\<exists>k. 1 \<le> k \<and> k \<le> backoffRetryLimit (opts s) + 1 \<and> accepted (net k)")
      (simp_all only: if_True if_False snd_conv, (rule exI, simp)+)
qed

lemma uploadChunk_resume_never_pending:
  "fst (uploadChunk_resume hash net index chunk s) \<noteq> Pending"
  using uploadChunk_resume_effect [of s net hash index chunk] by (auto split: if_splits)

text \<open>
  Claim C6. When an attempt within the retry budget passes the classifier, the call
  resolves; it first stores the checksum of the chunk under the upload id and \<open>index\<close>
  and then calls \<open>onChunkUpload\<close> with \<open>uploadedBytes = index * chunkSize + byteLength\<close>,
  \<open>chunkIndex = index\<close> and \<open>chunkLength = byteLength\<close>: the two events end the trace, in
  this order, after the events of the transport. For index 0, \<open>uploadedBytes\<close> is the
  length of the chunk.
\<close>

theorem uploadChunk_success:
  assumes "1 \<le> k" "k \<le> backoffRetryLimit (opts s) + 1" "accepted (net k)"
  shows "(\<exists>mid. list_all transport_event mid \<and> uploadChunk_resume hash net index chunk s =
          (Resolved (),
           s\<lparr>spark := spark s @ chunk,
             storage := (storage s)(meta_id (meta s) :=
                (storage s (meta_id (meta s)))(index \<mapsto> hash (spark s @ chunk))),
             trace := trace s @ Append chunk # mid @
               [StoragePut (meta_id (meta s)) index (hash (spark s @ chunk)),
                OnChunkUpload \<lparr>uploadedBytes = index * chunkSize (opts s) + int (length chunk),
                  chunkIndex = index, chunkLength = int (length chunk)\<rparr>]\<rparr>))
       \<and> (\<exists>tr. trace (snd (uploadChunk_resume hash net 0 chunk s)) =
             tr @ [StoragePut (meta_id (meta s)) 0 (hash (spark s @ chunk)),
                   OnChunkUpload \<lparr>uploadedBytes = int (length chunk), chunkIndex = 0,
                     chunkLength = int (length chunk)\<rparr>])"
proof
  show "\<exists>mid. list_all transport_event mid \<and> uploadChunk_resume hash net index chunk s =
          (Resolved (),
           s\<lparr>spark := spark s @ chunk,
             storage := (storage s)(meta_id (meta s) :=
                (storage s (meta_id (meta s)))(index \<mapsto> hash (spark s @ chunk))),
             trace := trace s @ Append chunk # mid @
               [StoragePut (meta_id (meta s)) index (hash (spark s @ chunk)),
                OnChunkUpload \<lparr>uploadedBytes = index * chunkSize (opts s) + int (length chunk),
                  chunkIndex = index, chunkLength = int (length chunk)\<rparr>]\<rparr>)"
    using assms by (rule uploadChunk_resume_success)
  obtain mid where "uploadChunk_resume hash net 0 chunk s =
          (Resolved (),
           s\<lparr>spark := spark s @ chunk,
             storage := (storage s)(meta_id (meta s) :=
                (storage s (meta_id (meta s)))(0 \<mapsto> hash (spark s @ chunk))),
             trace := trace s @ Append chunk # mid @
               [StoragePut (meta_id (meta s)) 0 (hash (spark s @ chunk)),
                OnChunkUpload \<lparr>uploadedBytes = 0 * chunkSize (opts s) + int (length chunk),
                  chunkIndex = 0, chunkLength = int (length chunk)\<rparr>]\<rparr>)"
    using uploadChunk_resume_success [where k = k and s = s and net = net and hash = hash
        and index = 0 and chunk = chunk, OF assms] by blast
  then have "trace (snd (uploadChunk_resume hash net 0 chunk s)) =
      (trace s @ Append chunk # mid) @
               [StoragePut (meta_id (meta s)) 0 (hash (spark s @ chunk)),
                OnChunkUpload \<lparr>uploadedBytes = int (length chunk),
                  chunkIndex = 0, chunkLength = int (length chunk)\<rparr>]"
    by simp
  then show "\<exists>tr. trace (snd (uploadChunk_resume hash net 0 chunk s)) =
             tr @ [StoragePut (meta_id (meta s)) 0 (hash (spark s @ chunk)),
                   OnChunkUpload \<lparr>uploadedBytes = int (length chunk), chunkIndex = 0,
                     chunkLength = int (length chunk)\<rparr>]"
    by (rule exI)
qed

lemma always_200_accepted: "accepted (always 200 n)"
  by (simp add: accepted_def always_def caught_def)

theorem uploadChunk_success_witness:
  "\<exists>tr. trace (snd (uploadChunk_resume (\<lambda>b. ''sum'') (always 200) 0 [1, 2, 3] new_session)) =
     tr @ [StoragePut (Some ''x'') 0 ''sum'',
           OnChunkUpload \<lparr>uploadedBytes = 3, chunkIndex = 0, chunkLength = 3\<rparr>]"
proof -
  have "(1::nat) \<le> 1" "1 \<le> backoffRetryLimit (opts new_session) + 1"
    "accepted (always 200 1)"
    by (simp_all add: always_200_accepted)
  from uploadChunk_success [where k = 1 and s = new_session and net = "always 200"
      and hash = "\<lambda>b. ''sum''" and chunk = "[1, 2, 3]", OF this, THEN conjunct2]
  show ?thesis by (simp add: new_session_def)
qed

text \<open>
  Claim C7. An attempt of \<open>uploadChunk\<close> passes exactly when \<open>safePut\<close> returns a response
  whose status is 200, 201 or 308. So a response with status 308 within the retry budget
  makes the call resolve, with the checksum stored and \<open>onChunkUpload\<close> called; and no
  call rejects with \<open>UploadIncompleteError\<close>.
\<close>

theorem uploadChunk_308_is_success:
  "((fst (attempt net ops index chunk num t) = Inr ()) =
      (case caught (settles (net num)) of
         Inl e \<Rightarrow> False
       | Inr res \<Rightarrow> status res \<in> {200, 201, 308}))
   \<and> (1 \<le> k \<and> k \<le> backoffRetryLimit (opts s) + 1
        \<and> caught (settles (net k)) = Inr res \<and> status res = 308 \<longrightarrow>
        (\<exists>mid. list_all transport_event mid \<and> uploadChunk_resume hash net index chunk s =
          (Resolved (),
           s\<lparr>spark := spark s @ chunk,
             storage := (storage s)(meta_id (meta s) :=
                (storage s (meta_id (meta s)))(index \<mapsto> hash (spark s @ chunk))),
             trace := trace s @ Append chunk # mid @
               [StoragePut (meta_id (meta s)) index (hash (spark s @ chunk)),
                OnChunkUpload \<lparr>uploadedBytes = index * chunkSize (opts s) + int (length chunk),
                  chunkIndex = index, chunkLength = int (length chunk)\<rparr>]\<rparr>)))
   \<and> (\<forall>s'. uploadChunk_resume hash net index chunk s \<noteq> (Rejected UploadIncompleteError, s'))"
proof (intro conjI impI allI)
  show "(fst (attempt net ops index chunk num t) = Inr ()) =
      (case caught (settles (net num)) of
         Inl e \<Rightarrow> False
       | Inr res \<Rightarrow> status res \<in> {200, 201, 308})"
    using attempt_result [of net ops index chunk num t] by (simp add: accepted_def)
next
  assume h: "1 \<le> k \<and> k \<le> backoffRetryLimit (opts s) + 1
        \<and> caught (settles (net k)) = Inr res \<and> status res = 308"
  then have "accepted (net k)" by (simp add: accepted_def)
  with h show "\<exists>mid. list_all transport_event mid \<and> uploadChunk_resume hash net index chunk s =
          (Resolved (),
           s\<lparr>spark := spark s @ chunk,
             storage := (storage s)(meta_id (meta s) :=
                (storage s (meta_id (meta s)))(index \<mapsto> hash (spark s @ chunk))),
             trace := trace s @ Append chunk # mid @
               [StoragePut (meta_id (meta s)) index (hash (spark s @ chunk)),
                OnChunkUpload \<lparr>uploadedBytes = index * chunkSize (opts s) + int (length chunk),
                  chunkIndex = index, chunkLength = int (length chunk)\<rparr>]\<rparr>)"
    by (intro uploadChunk_resume_success [where k = k]) simp_all
next
  fix s'
  show "uploadChunk_resume hash net index chunk s \<noteq> (Rejected UploadIncompleteError, s')"
    using uploadChunk_resume_effect [of s net hash index chunk] by (auto split: if_splits)
qed

theorem uploadChunk_308_is_success_witness:
  "\<exists>mid. uploadChunk_resume (\<lambda>b. ''sum'') (always 308) 2 [1, 2, 3] new_session =
     (Resolved (),
      new_session\<lparr>spark := [1, 2, 3],
        storage := (\<lambda>k. Map.empty)(Some ''x'' := [2 \<mapsto> ''sum'']),
        trace := Append [1, 2, 3] # mid @
          [StoragePut (Some ''x'') 2 ''sum'',
           OnChunkUpload \<lparr>uploadedBytes = 524291, chunkIndex = 2, chunkLength = 3\<rparr>]\<rparr>)"
proof -
  have "1 \<le> (1::nat) \<and> 1 \<le> backoffRetryLimit (opts new_session) + 1
        \<and> caught (settles (always 308 1)) = Inr \<lparr>status = 308, headers = []\<rparr>
        \<and> status \<lparr>status = 308, headers = []\<rparr> = 308"
    by (simp add: always_def caught_def)
  from uploadChunk_308_is_success [where k = 1 and s = new_session and net = "always 308"
      and res = "\<lparr>status = 308, headers = []\<rparr>" and hash = "\<lambda>b. ''sum''" and index = 2
      and chunk = "[1, 2, 3]", THEN conjunct2, THEN conjunct1, THEN mp, OF this]
  obtain mid where "uploadChunk_resume (\<lambda>b. ''sum'') (always 308) 2 [1, 2, 3] new_session =
          (Resolved (),
           new_session\<lparr>spark := spark new_session @ [1, 2, 3],
             storage := (storage new_session)(meta_id (meta new_session) :=
                (storage new_session (meta_id (meta new_session)))(2 \<mapsto> ''sum'')),
             trace := trace new_session @ Append [1, 2, 3] # mid @
               [StoragePut (meta_id (meta new_session)) 2 ''sum'',
                OnChunkUpload \<lparr>uploadedBytes = 2 * chunkSize (opts new_session) + int (length [1, 2, 3 :: 8 word]),
                  chunkIndex = 2, chunkLength = int (length [1, 2, 3 :: 8 word])\<rparr>]\<rparr>)"
    by blast
  then show ?thesis by (intro exI [of _ mid]) (simp add: new_session_def)
qed

lemma Upload_opts:
  assumes "Upload a allow store = Inr s"
  shows "backoffMillis (opts s) = (case arg_backoffMillis a of None \<Rightarrow> 1000 | Some v \<Rightarrow> v)
       \<and> backoffRetryLimit (opts s) = (case arg_backoffRetryLimit a of None \<Rightarrow> 5 | Some v \<Rightarrow> v)"
  using assms unfolding Upload_def Let_def by (auto split: if_splits)

lemma uploadChunk_resume_backoffs:
  "\<exists>new. trace (snd (uploadChunk_resume hash net index chunk s)) = trace s @ new
      \<and> set (backoffs new) \<subseteq> {backoffMillis (opts s)}
      \<and> ((\<forall>n. 1 \<le> n \<and> n \<le> backoffRetryLimit (opts s) + 1 \<longrightarrow> \<not> accepted (net n)) \<longrightarrow>
            backoffs new = replicate (backoffRetryLimit (opts s)) (backoffMillis (opts s))
            \<and> length (puts new) = backoffRetryLimit (opts s) + 1)"
proof -
  let ?ok = "\<exists>k. 1 \<le> k \<and> k \<le> backoffRetryLimit (opts s) + 1 \<and> accepted (net k)"
  let ?tail = "[StoragePut (meta_id (meta s)) index (hash (spark s @ chunk)),
                    OnChunkUpload \<lparr>uploadedBytes = index * chunkSize (opts s) + int (length chunk),
                      chunkIndex = index, chunkLength = int (length chunk)\<rparr>]"
  obtain mid where m: "set (backoffs mid) \<subseteq> {backoffMillis (opts s)}"
    "(\<forall>k. 1 \<le> k \<and> k \<le> backoffRetryLimit (opts s) + 1 \<longrightarrow> \<not> accepted (net k)) \<longrightarrow>
           length (puts mid) = backoffRetryLimit (opts s) + 1
           \<and> backoffs mid = replicate (backoffRetryLimit (opts s)) (backoffMillis (opts s))"
    "uploadChunk_resume hash net index chunk s =
        (if ?ok
         then (Resolved (),
               s\<lparr>spark := spark s @ chunk,
                 storage := (storage s)(meta_id (meta s) :=
                    (storage s (meta_id (meta s)))(index \<mapsto> hash (spark s @ chunk))),
                 trace := trace s @ Append chunk # mid @ ?tail\<rparr>)
         else (Rejected UploadUnableToRecoverError,
               s\<lparr>spark := spark s @ chunk, trace := trace s @ Append chunk # mid\<rparr>))"
    using uploadChunk_resume_effect [of s net hash index chunk] by blast
  show ?thesis
  proof (cases ?ok)
    case True
    then have "trace (snd (uploadChunk_resume hash net index chunk s)) =
        trace s @ (Append chunk # mid @ ?tail)"
      using m(3) by simp
    moreover have "backoffs (Append chunk # mid @ ?tail) = backoffs mid"
      by (simp add: backoffs_append)
    ultimately show ?thesis using m(1) True by (intro exI [of _ "Append chunk # mid @ ?tail"]) auto
  next
    case False
    then have "trace (snd (uploadChunk_resume hash net index chunk s)) =
        trace s @ (Append chunk # mid)"
      using m(3) by simp
    moreover have "backoffs (Append chunk # mid) = backoffs mid" "puts (Append chunk # mid) = puts mid"
      by (simp_all add: puts_def)
    ultimately show ?thesis using m(1,2) by (intro exI [of _ "Append chunk # mid"]) auto
  qed
qed

lemma checkResponseStatus_others:
  "checkResponseStatus res (ops\<lparr>others := xs\<rparr>) allowed = checkResponseStatus res ops allowed"
  by (simp add: checkResponseStatus_def)

lemma attempt_others:
  "attempt net (ops\<lparr>others := xs\<rparr>) index chunk num (s\<lparr>opts := o'\<rparr>) =
     (fst (attempt net ops index chunk num s), (snd (attempt net ops index chunk num s))\<lparr>opts := o'\<rparr>)"
  unfolding attempt_def safePut_def Let_def checkResponseStatus_others
  by (simp split: sum.splits)

lemma retry_from_others:
  "retry_from (attempt net (ops\<lparr>others := xs\<rparr>) index chunk) d num left (s\<lparr>opts := o'\<rparr>) =
     (fst (retry_from (attempt net ops index chunk) d num left s),
      (snd (retry_from (attempt net ops index chunk) d num left s))\<lparr>opts := o'\<rparr>)"
proof (induction left arbitrary: num s)
  case 0
  show ?case by (simp add: attempt_others)
next
  case (Suc left)
  obtain r s1 where a: "attempt net ops index chunk num s = (r, s1)"
    by (cases "attempt net ops index chunk num s")
  then have b: "attempt net (ops\<lparr>others := xs\<rparr>) index chunk num (s\<lparr>opts := o'\<rparr>) = (r, s1\<lparr>opts := o'\<rparr>)"
    using attempt_others [where net = net and ops = ops and xs = xs and index = index and chunk = chunk
        and num = num and s = s and o' = o'] by simp
  show ?case
  proof (cases r)
    case (Inr v)
    then show ?thesis using a b by simp
  next
    case (Inl e)
    let ?F = "attempt net (ops\<lparr>others := xs\<rparr>) index chunk"
    let ?G = "attempt net ops index chunk"
    let ?s1 = "s1\<lparr>trace := trace s1 @ [Backoff d]\<rparr>"
    have eq: "s1\<lparr>opts := o'\<rparr>\<lparr>trace := trace (s1\<lparr>opts := o'\<rparr>) @ [Backoff d]\<rparr> = ?s1\<lparr>opts := o'\<rparr>"
      by simp
    have "retry_from ?F d num (Suc left) (s\<lparr>opts := o'\<rparr>) =
        retry_from ?F d (Suc num) left (s1\<lparr>opts := o'\<rparr>\<lparr>trace := trace (s1\<lparr>opts := o'\<rparr>) @ [Backoff d]\<rparr>)"
      using b Inl by (simp del: state.simps state.update_convs)
    also have "\<dots> = retry_from ?F d (Suc num) left (?s1\<lparr>opts := o'\<rparr>)"
      by (simp only: eq)
    also have "\<dots> = (fst (retry_from ?G d (Suc num) left ?s1),
        (snd (retry_from ?G d (Suc num) left ?s1))\<lparr>opts := o'\<rparr>)"
      by (rule Suc.IH)
    also have "retry_from ?G d (Suc num) left ?s1 = retry_from ?G d num (Suc left) s"
      using a Inl by simp
    finally show ?thesis .
  qed
qed

lemma getChecksum_opts:
  "getChecksum hash chunk (s\<lparr>opts := o'\<rparr>) =
     (fst (getChecksum hash chunk s), (snd (getChecksum hash chunk s))\<lparr>opts := o'\<rparr>)"
  by (simp add: getChecksum_def)

lemma addChecksum_opts:
  "addChecksum index checksum (s\<lparr>opts := o'\<rparr>) = (addChecksum index checksum s)\<lparr>opts := o'\<rparr>"
  by (simp add: addChecksum_def Let_def)

lemma uploadChunk_resume_others:
  "uploadChunk_resume hash net index chunk (s\<lparr>opts := (opts s)\<lparr>others := xs\<rparr>\<rparr>) =
     (fst (uploadChunk_resume hash net index chunk s),
      (snd (uploadChunk_resume hash net index chunk s))\<lparr>opts := (opts s)\<lparr>others := xs\<rparr>\<rparr>)"
proof -
  obtain c s1 where g: "getChecksum hash chunk s = (c, s1)"
    by (cases "getChecksum hash chunk s")
  let ?run = "retry_from (attempt net (opts s) index chunk) (backoffMillis (opts s)) 1
      (backoffRetryLimit (opts s)) s1"
  obtain res s2 where run: "?run = (res, s2)" by (cases ?run)
  have a: "addChecksum index c (s2\<lparr>opts := (opts s)\<lparr>others := xs\<rparr>\<rparr>) =
      (addChecksum index c s2)\<lparr>opts := (opts s)\<lparr>others := xs\<rparr>\<rparr>"
    by (rule addChecksum_opts)
  show ?thesis
    unfolding uploadChunk_resume_def Let_def retry_def
    using g run
    by (cases res) (simp_all add: getChecksum_opts retry_from_others a)
qed

lemma Upload_others:
  "Upload (a\<lparr>arg_others := xs\<rparr>) allow store =
     (case Upload a allow store of
        Inl e \<Rightarrow> Inl e
      | Inr s \<Rightarrow> Inr (s\<lparr>opts := (opts s)\<lparr>others := xs\<rparr>\<rparr>))"
  unfolding Upload_def Let_def by simp

lemma Upload_others_copied:
  assumes "Upload a allow store = Inr s"
  shows "others (opts s) = arg_others a"
  using assms unfolding Upload_def Let_def by (auto split: if_splits)


lemma getRemoteResumeIndex_others:
  "getRemoteResumeIndex reply (s\<lparr>opts := (opts s)\<lparr>others := xs\<rparr>\<rparr>) =
     (fst (getRemoteResumeIndex reply s),
      (snd (getRemoteResumeIndex reply s))\<lparr>opts := (opts s)\<lparr>others := xs\<rparr>\<rparr>)"
proof -
  have "url ((opts s)\<lparr>others := xs\<rparr>) = url (opts s)"
    "chunkSize ((opts s)\<lparr>others := xs\<rparr>) = chunkSize (opts s)"
    by simp_all
  then show ?thesis
    unfolding getRemoteResumeIndex_def safePut_def Let_def
    by (cases "caught (settles reply)")
      (simp_all add: checkResponseStatus_others split: sum.splits option.splits prod.splits)
qed

text \<open>
  Claim C9, amended. The option that sets the delay of the retry loop is named
  \<open>backoffMillis\<close>: it defaults to 1000, and \<open>uploadChunk\<close> passes it to the retry helper as
  the minimum wait before every further attempt; \<open>backoffRetryLimit\<close> defaults to 5 and is
  the number of further attempts. Every wait of a call carries \<open>backoffMillis\<close>, and a call
  whose attempts all fail waits \<open>backoffRetryLimit\<close> times and sends
  \<open>backoffRetryLimit + 1\<close> requests. A property under any other name, such as
  \<open>backoffDelayMillis\<close>, is copied into \<open>opts\<close> and never read: with other such properties
  the constructor builds the same session, and \<open>uploadChunk\<close> and \<open>getRemoteResumeIndex\<close>
  give the same result and make the same changes.
\<close>

theorem backoffMillis_is_the_retry_delay:
  assumes "Upload a allow store = Inr s0" and "opts s = opts s0"
  shows "backoffMillis (opts s) = (case arg_backoffMillis a of None \<Rightarrow> 1000 | Some v \<Rightarrow> v)
       \<and> backoffRetryLimit (opts s) = (case arg_backoffRetryLimit a of None \<Rightarrow> 5 | Some v \<Rightarrow> v)
       \<and> (\<exists>new. trace (snd (uploadChunk_resume hash net index chunk s)) = trace s @ new
             \<and> set (backoffs new) \<subseteq> {backoffMillis (opts s)}
             \<and> ((\<forall>n. 1 \<le> n \<and> n \<le> backoffRetryLimit (opts s) + 1 \<longrightarrow> \<not> accepted (net n)) \<longrightarrow>
                   backoffs new = replicate (backoffRetryLimit (opts s)) (backoffMillis (opts s))
                   \<and> length (puts new) = backoffRetryLimit (opts s) + 1))
       \<and> others (opts s) = arg_others a
       \<and> Upload (a\<lparr>arg_others := xs\<rparr>) allow store = Inr (s0\<lparr>opts := (opts s0)\<lparr>others := xs\<rparr>\<rparr>)
       \<and> uploadChunk_resume hash net index chunk (s\<lparr>opts := (opts s)\<lparr>others := xs\<rparr>\<rparr>) =
           (fst (uploadChunk_resume hash net index chunk s),
            (snd (uploadChunk_resume hash net index chunk s))\<lparr>opts := (opts s)\<lparr>others := xs\<rparr>\<rparr>)
       \<and> getRemoteResumeIndex reply (s\<lparr>opts := (opts s)\<lparr>others := xs\<rparr>\<rparr>) =
           (fst (getRemoteResumeIndex reply s),
            (snd (getRemoteResumeIndex reply s))\<lparr>opts := (opts s)\<lparr>others := xs\<rparr>\<rparr>)"
proof (intro conjI)
  show "others (opts s) = arg_others a"
    using Upload_others_copied [OF assms(1)] assms(2) by simp
  show "Upload (a\<lparr>arg_others := xs\<rparr>) allow store = Inr (s0\<lparr>opts := (opts s0)\<lparr>others := xs\<rparr>\<rparr>)"
    using Upload_others [where a = a and xs = xs and allow = allow and store = store] assms(1)
    by simp
  show "uploadChunk_resume hash net index chunk (s\<lparr>opts := (opts s)\<lparr>others := xs\<rparr>\<rparr>) =
           (fst (uploadChunk_resume hash net index chunk s),
            (snd (uploadChunk_resume hash net index chunk s))\<lparr>opts := (opts s)\<lparr>others := xs\<rparr>\<rparr>)"
    by (rule uploadChunk_resume_others)
  show "getRemoteResumeIndex reply (s\<lparr>opts := (opts s)\<lparr>others := xs\<rparr>\<rparr>) =
           (fst (getRemoteResumeIndex reply s),
            (snd (getRemoteResumeIndex reply s))\<lparr>opts := (opts s)\<lparr>others := xs\<rparr>\<rparr>)"
    by (rule getRemoteResumeIndex_others)
qed (use Upload_opts [OF assms(1)] assms(2) uploadChunk_resume_backoffs [of hash net index chunk s]
      in simp_all)

lemma Upload_tuned_args: "Upload tuned_args False (\<lambda>k. Map.empty) = Inr tuned_session"
  unfolding Upload_def Let_def js_rem_dvd MIN_CHUNK_SIZE_def minimal_args_def FileMeta_def
    tuned_args_def tuned_session_def new_session_def
  by (simp add: truthy_def)

lemma Upload_misnamed_args: "Upload misnamed_args False (\<lambda>k. Map.empty) = Inr misnamed_session"
  unfolding Upload_def Let_def js_rem_dvd MIN_CHUNK_SIZE_def minimal_args_def FileMeta_def
    misnamed_args_def misnamed_session_def new_session_def
  by (simp add: truthy_def)

theorem backoffMillis_is_the_retry_delay_witness:
  "backoffMillis (opts tuned_session) = 250 \<and> backoffRetryLimit (opts tuned_session) = 2
   \<and> others (opts tuned_session) = [(''backoffDelayMillis'', 50)]
   \<and> (\<exists>new. trace (snd (uploadChunk_resume (\<lambda>b. []) (always 500) 0 [1, 2, 3] tuned_session)) = new
         \<and> backoffs new = [250, 250] \<and> length (puts new) = 3)"
proof -
  have h: "\<forall>n. 1 \<le> n \<and> n \<le> backoffRetryLimit (opts tuned_session) + 1 \<longrightarrow> \<not> accepted (always 500 n)"
    by (simp add: always_500_rejected)
  have t: "trace tuned_session = []" "backoffRetryLimit (opts tuned_session) = 2"
    "backoffMillis (opts tuned_session) = 250"
    by (simp_all add: tuned_session_def new_session_def)
  note inst = backoffMillis_is_the_retry_delay [OF Upload_tuned_args refl, where hash = "\<lambda>b. []"
      and net = "always 500" and index = 0 and chunk = "[1, 2, 3]"]
  from inst obtain new where "trace (snd (uploadChunk_resume (\<lambda>b. []) (always 500) 0 [1, 2, 3] tuned_session)) = trace tuned_session @ new"
     "(\<forall>n. 1 \<le> n \<and> n \<le> backoffRetryLimit (opts tuned_session) + 1 \<longrightarrow> \<not> accepted (always 500 n)) \<longrightarrow>
        backoffs new = replicate (backoffRetryLimit (opts tuned_session)) (backoffMillis (opts tuned_session))
        \<and> length (puts new) = backoffRetryLimit (opts tuned_session) + 1"
    by blast
  moreover have "others (opts tuned_session) = [(''backoffDelayMillis'', 50)]"
    using inst by (simp add: tuned_args_def)
  ultimately show ?thesis using h t by (simp add: numeral_2_eq_2)
qed

text \<open>
  Claim C9 as stated fails: a property named \<open>backoffDelayMillis\<close> is copied into \<open>opts\<close> and
  never read. With \<open>backoffDelayMillis: 50\<close> the session still waits 1000 between attempts.
\<close>

theorem backoffDelayMillis_is_not_read:
  "Upload misnamed_args False (\<lambda>k. Map.empty) = Inr misnamed_session
   \<and> others (opts misnamed_session) = [(''backoffDelayMillis'', 50)]
   \<and> backoffMillis (opts misnamed_session) = 1000
   \<and> backoffs (trace (snd (uploadChunk_resume (\<lambda>b. []) (always 500) 0 [1, 2, 3] misnamed_session)))
       = [1000, 1000, 1000, 1000, 1000]"
proof -
  have h: "\<forall>n. 1 \<le> n \<and> n \<le> backoffRetryLimit (opts misnamed_session) + 1 \<longrightarrow> \<not> accepted (always 500 n)"
    by (simp add: always_500_rejected)
  have t: "trace misnamed_session = []" "backoffRetryLimit (opts misnamed_session) = 5"
    "backoffMillis (opts misnamed_session) = 1000"
    "others (opts misnamed_session) = [(''backoffDelayMillis'', 50)]"
    by (simp_all add: misnamed_session_def new_session_def)
  obtain new where "trace (snd (uploadChunk_resume (\<lambda>b. []) (always 500) 0 [1, 2, 3] misnamed_session)) = trace misnamed_session @ new"
     "(\<forall>n. 1 \<le> n \<and> n \<le> backoffRetryLimit (opts misnamed_session) + 1 \<longrightarrow> \<not> accepted (always 500 n)) \<longrightarrow>
        backoffs new = replicate (backoffRetryLimit (opts misnamed_session)) (backoffMillis (opts misnamed_session))
        \<and> length (puts new) = backoffRetryLimit (opts misnamed_session) + 1"
    using uploadChunk_resume_backoffs [of "\<lambda>b. []" "always 500" 0 "[1, 2, 3]" misnamed_session] by blast
  with h t Upload_misnamed_args show ?thesis by (simp add: eval_nat_numeral)
qed

lemma uploadChunk_resume_spark:
  "spark (snd (uploadChunk_resume hash net index chunk s)) = spark s @ chunk"
proof -
  obtain rest where "snd (uploadChunk_resume hash net index chunk s) =
      s\<lparr>spark := spark s @ chunk,
        storage := storage (snd (uploadChunk_resume hash net index chunk s)),
        trace := trace s @ Append chunk # rest\<rparr>"
    using uploadChunk_resume_frame by blast
  then have "spark (snd (uploadChunk_resume hash net index chunk s)) =
      spark (s\<lparr>spark := spark s @ chunk,
        storage := storage (snd (uploadChunk_resume hash net index chunk s)),
        trace := trace s @ Append chunk # rest\<rparr>)"
    by simp
  then show ?thesis by simp
qed

lemma uploadChunk_resume_trace:
  "\<exists>rest. trace (snd (uploadChunk_resume hash net index chunk s)) = trace s @ Append chunk # rest"
proof -
  obtain rest where "snd (uploadChunk_resume hash net index chunk s) =
      s\<lparr>spark := spark s @ chunk,
        storage := storage (snd (uploadChunk_resume hash net index chunk s)),
        trace := trace s @ Append chunk # rest\<rparr>"
    using uploadChunk_resume_frame by blast
  then have "trace (snd (uploadChunk_resume hash net index chunk s)) =
      trace (s\<lparr>spark := spark s @ chunk,
        storage := storage (snd (uploadChunk_resume hash net index chunk s)),
        trace := trace s @ Append chunk # rest\<rparr>)"
    by simp
  then show ?thesis by simp
qed

text \<open>
  Claim C10. A call past the pause gate appends the chunk to the checksum accumulator
  before anything is sent: the append is the first event of the call, and the accumulator
  holds the chunk's bytes whatever the outcome. When every attempt fails, the call rejects
  with \<open>UploadUnableToRecoverError\<close> and the accumulator keeps the bytes, so a second call
  with the same chunk appends them a second time.
\<close>

theorem uploadChunk_fold_is_not_rolled_back:
  "spark (snd (uploadChunk_resume hash net index chunk s)) = spark s @ chunk
   \<and> (\<exists>rest. trace (snd (uploadChunk_resume hash net index chunk s)) =
          trace s @ Append chunk # rest)
   \<and> ((\<forall>n. 1 \<le> n \<and> n \<le> backoffRetryLimit (opts s) + 1 \<longrightarrow> \<not> accepted (net n)) \<longrightarrow>
        fst (uploadChunk_resume hash net index chunk s) = Rejected UploadUnableToRecoverError
        \<and> spark (snd (uploadChunk_resume hash net index chunk s)) = spark s @ chunk
        \<and> spark (snd (uploadChunk_resume hash net2 index chunk
             (snd (uploadChunk_resume hash net index chunk s)))) = spark s @ chunk @ chunk)"
proof (intro conjI impI)
  assume "\<forall>n. 1 \<le> n \<and> n \<le> backoffRetryLimit (opts s) + 1 \<longrightarrow> \<not> accepted (net n)"
  then show "fst (uploadChunk_resume hash net index chunk s) = Rejected UploadUnableToRecoverError"
    using uploadChunk_resume_effect [of s net hash index chunk] by auto
qed (simp_all add: uploadChunk_resume_spark uploadChunk_resume_trace)

theorem uploadChunk_fold_is_not_rolled_back_witness:
  "fst (uploadChunk_resume (\<lambda>b. []) (always 500) 0 [1, 2, 3] new_session) =
     Rejected UploadUnableToRecoverError
   \<and> spark (snd (uploadChunk_resume (\<lambda>b. []) (always 500) 0 [1, 2, 3] new_session)) = [1, 2, 3]
   \<and> spark (snd (uploadChunk_resume (\<lambda>b. []) (always 200) 0 [1, 2, 3]
        (snd (uploadChunk_resume (\<lambda>b. []) (always 500) 0 [1, 2, 3] new_session)))) =
      [1, 2, 3, 1, 2, 3]"
proof -
  have h: "\<forall>n. 1 \<le> n \<and> n \<le> backoffRetryLimit (opts new_session) + 1 \<longrightarrow> \<not> accepted (always 500 n)"
    by (simp add: always_500_rejected)
  from uploadChunk_fold_is_not_rolled_back [of "\<lambda>b. []" "always 500" 0 "[1, 2, 3]" new_session
      "always 200", THEN conjunct2, THEN conjunct2, THEN mp, OF h]
  show ?thesis by (simp add: new_session_def)
qed

subsection \<open>The resume index\<close>

lemma is_digit_minus: "\<not> is_digit CHR ''-''"
  by (simp add: is_digit_def digit_chars_def)

lemma digit_chars_nth: "k < 10 \<Longrightarrow> is_digit (digit_chars ! k) \<and> digit_value (digit_chars ! k) = int k"
proof -
  assume "k < 10"
  then have "k \<in> {0, 1, 2, 3, 4, 5, 6, 7, 8, 9}" by auto
  then show ?thesis
    by (auto simp: is_digit_def digit_chars_def digit_value_def)
qed

lemma show_nat_digits: "show_nat n \<noteq> [] \<and> list_all is_digit (show_nat n)"
proof (induction n rule: show_nat.induct)
  case (1 n)
  show ?case
  proof (cases "n < 10")
    case True
    then show ?thesis using digit_chars_nth [of n] by (subst (1 2) show_nat.simps) simp
  next
    case False
    then show ?thesis using 1 digit_chars_nth [of "n mod 10"]
      by (subst (1 2) show_nat.simps) simp
  qed
qed

lemma parseInt_snoc: "parseInt (ds @ [c]) = 10 * parseInt ds + digit_value c"
  by (simp add: parseInt_def)

lemma parseInt_show_nat: "parseInt (show_nat n) = int n"
proof (induction n rule: show_nat.induct)
  case (1 n)
  show ?case
  proof (cases "n < 10")
    case True
    then show ?thesis using digit_chars_nth [of n]
      by (subst show_nat.simps) (simp add: parseInt_def)
  next
    case False
    then have "parseInt (show_nat n) = 10 * int (n div 10) + int (n mod 10)"
      using 1 digit_chars_nth [of "n mod 10"]
      by (subst show_nat.simps) (simp add: parseInt_snoc)
    moreover have "int n = int (10 * (n div 10) + n mod 10)" by simp
    then have "int n = 10 * int (n div 10) + int (n mod 10)"
      by (simp only: of_nat_add of_nat_mult of_nat_numeral)
    ultimately show ?thesis by simp
  qed
qed

lemma match_here_digits:
  assumes "g1 \<noteq> []" "list_all is_digit g1" "g2 \<noteq> []" "list_all is_digit g2"
  shows "match_here (g1 @ CHR ''-'' # g2) = Some (g1, g2)"
proof -
  have "takeWhile is_digit (g1 @ CHR ''-'' # g2) = g1"
    using assms(2) is_digit_minus by (simp add: list_all_iff)
  moreover have "dropWhile is_digit (g1 @ CHR ''-'' # g2) = CHR ''-'' # g2"
    using assms(2) is_digit_minus by (simp add: list_all_iff)
  ultimately show ?thesis using assms(1,3,4) by (simp add: match_here_def)
qed

lemma match_here_shape:
  assumes "match_here s = Some (g1, g2)"
  shows "s = g1 @ CHR ''-'' # g2 \<and> list_all is_digit g2"
proof -
  have s: "s = takeWhile is_digit s @ dropWhile is_digit s" by simp
  from assms obtain c where "dropWhile is_digit s = c # g2" "c = CHR ''-''" "list_all is_digit g2"
    "g1 = takeWhile is_digit s"
    by (auto simp: match_here_def Let_def split: if_splits list.splits)
  with s show ?thesis by metis
qed

lemma last_group_unique:
  assumes "xs @ CHR ''-'' # g = ys @ CHR ''-'' # d" "list_all is_digit g" "list_all is_digit d"
  shows "g = d"
proof -
  have "takeWhile is_digit (rev (zs @ CHR ''-'' # t)) = rev t" if "list_all is_digit t" for zs t
  proof -
    have "rev (zs @ CHR ''-'' # t) = rev t @ CHR ''-'' # rev zs" by simp
    moreover have "takeWhile is_digit (rev t @ CHR ''-'' # rev zs)
        = rev t @ takeWhile is_digit (CHR ''-'' # rev zs)"
      using that by (intro takeWhile_append2) (simp add: list_all_iff)
    ultimately show ?thesis using is_digit_minus by simp
  qed
  then have "rev g = rev d" using assms by metis
  then show ?thesis by simp
qed

lemma range_match_ends:
  assumes "d1 \<noteq> []" "list_all is_digit d1" "d2 \<noteq> []" "list_all is_digit d2"
  shows "\<exists>g1. range_match (pre @ d1 @ CHR ''-'' # d2) = Some (g1, d2)"
proof (induction pre)
  case Nil
  obtain c cs where "d1 = c # cs" using assms(1) by (cases d1) auto
  then have "range_match (d1 @ CHR ''-'' # d2) =
      (case match_here (d1 @ CHR ''-'' # d2) of Some groups \<Rightarrow> Some groups
       | None \<Rightarrow> range_match (cs @ CHR ''-'' # d2))" by simp
  then show ?case using match_here_digits [OF assms] by simp
next
  case (Cons p pre)
  show ?case
  proof (cases "match_here (p # pre @ d1 @ CHR ''-'' # d2)")
    case None
    then show ?thesis using Cons by simp
  next
    case (Some groups)
    obtain g1 g2 where g: "groups = (g1, g2)" by (cases groups)
    have "p # pre @ d1 @ CHR ''-'' # d2 = g1 @ CHR ''-'' # g2" "list_all is_digit g2"
      using match_here_shape Some g by blast+
    then have "g2 = d2"
      using last_group_unique [of g1 g2 "p # pre @ d1" d2] assms(4) by simp
    then show ?thesis using Some g by simp
  qed
qed


lemma show_nat_small: "n < 10 \<Longrightarrow> show_nat n = [digit_chars ! n]"
  by (subst show_nat.simps) simp

lemma show_nat_large:
  "\<not> n < 10 \<Longrightarrow> show_nat n = show_nat (n div 10) @ [digit_chars ! (n mod 10)]"
  by (subst show_nat.simps) simp

lemma range_example: "''bytes=0-524287'' = ''bytes='' @ show_nat 0 @ ''-'' @ show_nat 524287"
  by (simp add: show_nat_small show_nat_large digit_chars_def)

lemma getRemoteResumeIndex_parsed:
  assumes "caught (settles reply) = Inr res" "status res = 308"
    and "map_of (headers res) ''range'' = Some (pre @ show_nat a @ ''-'' @ show_nat b)"
  shows "fst (getRemoteResumeIndex reply s) =
           Resolved (floor_quotient (int b + 1) (chunkSize (opts s)))"
proof -
  obtain g1 where "range_match (pre @ show_nat a @ CHR ''-'' # show_nat b) = Some (g1, show_nat b)"
    using range_match_ends [of "show_nat a" "show_nat b" pre] show_nat_digits by blast
  then show ?thesis
    using assms unfolding getRemoteResumeIndex_def safePut_def Let_def checkResponseStatus_cases
    by (simp add: parseInt_show_nat)
qed

lemma getRemoteResumeIndex_rejected:
  assumes "caught (settles reply) = Inr res" "status res \<noteq> 308"
  shows "\<exists>e. checkResponseStatus res (opts s) [308] = Inl e
           \<and> fst (getRemoteResumeIndex reply s) = Rejected e"
proof -
  have "\<exists>e. checkResponseStatus res (opts s) [308] = Inl e"
    using assms(2) unfolding checkResponseStatus_cases by simp
  then obtain e where "checkResponseStatus res (opts s) [308] = Inl e" by blast
  then show ?thesis
    using assms(1) unfolding getRemoteResumeIndex_def safePut_def Let_def by simp
qed

lemma getRemoteResumeIndex_state:
  "snd (getRemoteResumeIndex reply s) =
     s\<lparr>trace := trace s @ [Put (url (opts s)) None [(''Content-Range'', ''bytes */*'')]]\<rparr>"
  unfolding getRemoteResumeIndex_def safePut_def Let_def
  by (simp split: sum.splits option.splits prod.splits)

text \<open>
  Claim C2. \<open>getRemoteResumeIndex\<close> sends one request without a body and with the header
  \<open>Content-Range: bytes */*\<close>. When the chunk size is positive, the status is 308 and the
  \<open>range\<close> header ends in \<open>start-end\<close> (two decimal numbers), the result is
  \<open>(end + 1) div chunkSize\<close>; with \<open>bytes=0-524287\<close> and chunk size 262144 it is 2. When
  the status is not 308, the call rejects with the classifier's error for the status.
\<close>

theorem getRemoteResumeIndex_resume_index:
  "snd (getRemoteResumeIndex reply s) =
     s\<lparr>trace := trace s @ [Put (url (opts s)) None [(''Content-Range'', ''bytes */*'')]]\<rparr>
   \<and> (0 < chunkSize (opts s) \<and> caught (settles reply) = Inr res \<and> status res = 308
        \<and> map_of (headers res) ''range'' = Some (pre @ show_nat a @ ''-'' @ show_nat b) \<longrightarrow>
        fst (getRemoteResumeIndex reply s) = Resolved (Finite ((int b + 1) div chunkSize (opts s))))
   \<and> (chunkSize (opts s) = 262144 \<and> caught (settles reply) = Inr res \<and> status res = 308
        \<and> map_of (headers res) ''range'' = Some ''bytes=0-524287'' \<longrightarrow>
        fst (getRemoteResumeIndex reply s) = Resolved (Finite 2))
   \<and> (caught (settles reply) = Inr res \<and> status res \<noteq> 308 \<longrightarrow>
        (\<exists>e. checkResponseStatus res (opts s) [308] = Inl e
           \<and> fst (getRemoteResumeIndex reply s) = Rejected e))"
proof (intro conjI impI)
  show "snd (getRemoteResumeIndex reply s) =
     s\<lparr>trace := trace s @ [Put (url (opts s)) None [(''Content-Range'', ''bytes */*'')]]\<rparr>"
    by (rule getRemoteResumeIndex_state)
next
  assume "0 < chunkSize (opts s) \<and> caught (settles reply) = Inr res \<and> status res = 308
        \<and> map_of (headers res) ''range'' = Some (pre @ show_nat a @ ''-'' @ show_nat b)"
  then show "fst (getRemoteResumeIndex reply s) = Resolved (Finite ((int b + 1) div chunkSize (opts s)))"
    using getRemoteResumeIndex_parsed [of reply res pre a b s] by (simp add: floor_quotient_def)
next
  assume h: "chunkSize (opts s) = 262144 \<and> caught (settles reply) = Inr res \<and> status res = 308
        \<and> map_of (headers res) ''range'' = Some ''bytes=0-524287''"
  then have "map_of (headers res) ''range'' = Some (''bytes='' @ show_nat 0 @ ''-'' @ show_nat 524287)"
    using range_example by simp
  then have "fst (getRemoteResumeIndex reply s) =
           Resolved (floor_quotient (int 524287 + 1) (chunkSize (opts s)))"
    using h getRemoteResumeIndex_parsed [of reply res "''bytes=''" 0 524287 s] by simp
  then show "fst (getRemoteResumeIndex reply s) = Resolved (Finite 2)"
    using h by (simp add: floor_quotient_def)
next
  assume "caught (settles reply) = Inr res \<and> status res \<noteq> 308"
  then show "\<exists>e. checkResponseStatus res (opts s) [308] = Inl e
           \<and> fst (getRemoteResumeIndex reply s) = Rejected e"
    using getRemoteResumeIndex_rejected [of reply res s] by simp
qed

theorem getRemoteResumeIndex_resume_index_witness:
  "fst (getRemoteResumeIndex probe_reply new_session) = Resolved (Finite 2)
   \<and> fst (getRemoteResumeIndex (always 500 1) new_session) = Rejected (UploadFailedError 500)"
proof -
  let ?res = "\<lparr>status = 308, headers = [(''range'', ''bytes=0-524287'')]\<rparr>"
  have 1: "chunkSize (opts new_session) = 262144 \<and> caught (settles probe_reply) = Inr ?res
      \<and> status ?res = 308 \<and> map_of (headers ?res) ''range'' = Some ''bytes=0-524287''"
    by (simp add: new_session_def probe_reply_def caught_def)
  let ?bad = "\<lparr>status = 500, headers = []\<rparr>"
  have 2: "caught (settles (always 500 1)) = Inr ?bad \<and> status ?bad \<noteq> 308"
    by (simp add: always_def caught_def)
  have a: "fst (getRemoteResumeIndex probe_reply new_session) = Resolved (Finite 2)"
    using getRemoteResumeIndex_resume_index [where reply = probe_reply and s = new_session
        and res = ?res, THEN conjunct2, THEN conjunct2, THEN conjunct1, THEN mp, OF 1] .
  have "\<exists>e. checkResponseStatus ?bad (opts new_session) [308] = Inl e
           \<and> fst (getRemoteResumeIndex (always 500 1) new_session) = Rejected e"
    using getRemoteResumeIndex_resume_index [where reply = "always 500 1" and s = new_session
        and res = ?bad, THEN conjunct2, THEN conjunct2, THEN conjunct2, THEN mp, OF 2] .
  then have b: "fst (getRemoteResumeIndex (always 500 1) new_session) = Rejected (UploadFailedError 500)"
    unfolding checkResponseStatus_cases by simp
  show ?thesis using a b by (intro conjI)
qed

subsection \<open>The pause gate\<close>

lemma release_all:
  "foldl (\<lambda>t fn. t\<lparr>jobs := jobs t @ [fn]\<rparr>) s hs = s\<lparr>jobs := jobs s @ hs\<rparr>"
  by (induction hs arbitrary: s) simp_all

lemma unpause_eq:
  "unpause s = s\<lparr>paused := False, jobs := jobs s @ unpauseHandlers s, unpauseHandlers := []\<rparr>"
  by (simp add: unpause_def Let_def release_all)

lemma uploadChunk_resume_fields:
  "paused (snd (uploadChunk_resume hash net index chunk s)) = paused s
   \<and> unpauseHandlers (snd (uploadChunk_resume hash net index chunk s)) = unpauseHandlers s
   \<and> opts (snd (uploadChunk_resume hash net index chunk s)) = opts s
   \<and> meta (snd (uploadChunk_resume hash net index chunk s)) = meta s
   \<and> jobs (snd (uploadChunk_resume hash net index chunk s)) = jobs s"
proof -
  obtain rest where r: "snd (uploadChunk_resume hash net index chunk s) =
      s\<lparr>spark := spark s @ chunk,
        storage := storage (snd (uploadChunk_resume hash net index chunk s)),
        trace := trace s @ Append chunk # rest\<rparr>"
    using uploadChunk_resume_frame by blast
  show ?thesis by (subst r, simp)+
qed

lemma run_job_fields:
  "paused (snd (run_job hash net s)) = paused s
   \<and> unpauseHandlers (snd (run_job hash net s)) = unpauseHandlers s
   \<and> opts (snd (run_job hash net s)) = opts s
   \<and> meta (snd (run_job hash net s)) = meta s
   \<and> jobs (snd (run_job hash net s)) = tl (jobs s)"
proof (cases "jobs s")
  case Nil
  then show ?thesis by (simp add: run_job_def)
next
  case (Cons j rest)
  obtain index chunk where j: "j = (index, chunk)" by (cases j)
  have "snd (run_job hash net s) = snd (uploadChunk_resume hash net index chunk (s\<lparr>jobs := rest\<rparr>))"
    using Cons j by (simp add: run_job_def split: prod.splits)
  then show ?thesis
    using uploadChunk_resume_fields [of hash net index chunk "s\<lparr>jobs := rest\<rparr>"] Cons by simp
qed

lemma uploadChunk_fields:
  "opts (snd (uploadChunk hash net index chunk s)) = opts s
   \<and> meta (snd (uploadChunk hash net index chunk s)) = meta s
   \<and> jobs (snd (uploadChunk hash net index chunk s)) = jobs s
   \<and> prefix (unpauseHandlers s) (unpauseHandlers (snd (uploadChunk hash net index chunk s)))"
  using uploadChunk_resume_fields [of hash net index chunk s]
  by (simp add: uploadChunk_def waitForUnpause_def)

lemma step_opts_meta: "opts (step hash s c) = opts s \<and> meta (step hash s c) = meta s"
proof (cases c)
  case (Call_uploadChunk net index chunk)
  then show ?thesis using uploadChunk_fields [of hash net index chunk s] by simp
next
  case (Call_getRemoteResumeIndex reply)
  then show ?thesis by (simp add: getRemoteResumeIndex_state)
next
  case (Run_job net)
  then show ?thesis using run_job_fields [of hash net s] by simp
qed (simp_all add: pause_def unpause_eq cancel_def reset_def Let_def)

lemma run_opts_meta: "opts (run hash calls s) = opts s \<and> meta (run hash calls s) = meta s"
  unfolding run_def by (induction calls arbitrary: s) (simp_all add: step_opts_meta)

lemma step_waiters:
  assumes "c \<noteq> Call_unpause"
  shows "prefix (unpauseHandlers s) (unpauseHandlers (step hash s c))
       \<and> suffix (jobs (step hash s c)) (jobs s)"
proof (cases c)
  case (Call_uploadChunk net index chunk)
  then show ?thesis using uploadChunk_fields [of hash net index chunk s] by simp
next
  case (Call_getRemoteResumeIndex reply)
  then show ?thesis by (simp add: getRemoteResumeIndex_state)
next
  case (Run_job net)
  then show ?thesis using run_job_fields [of hash net s] by simp
qed (use assms in \<open>simp_all add: pause_def cancel_def reset_def Let_def\<close>)

lemma run_waiters:
  assumes "Call_unpause \<notin> set calls"
  shows "prefix (unpauseHandlers s) (unpauseHandlers (run hash calls s))
       \<and> suffix (jobs (run hash calls s)) (jobs s)"
  using assms unfolding run_def
proof (induction calls arbitrary: s)
  case Nil
  then show ?case by simp
next
  case (Cons c calls)
  then have "c \<noteq> Call_unpause" "Call_unpause \<notin> set calls" by auto
  then show ?case
    using step_waiters [of c s hash] Cons.IH [of "step hash s c"]
    by (auto intro: prefix_order.trans suffix_order.trans)
qed


text \<open>
  Claim C5. A call of \<open>uploadChunk\<close> on a paused session registers a waiter and stays
  pending, with nothing sent and nothing else changed. While \<open>unpause\<close> is not called, the
  waiters stay registered, in place, and no continuation is added to the job queue. One
  \<open>unpause\<close> clears the flag, puts every waiter on the job queue once, in order, and empties
  the list of waiters; a released continuation runs the rest of \<open>uploadChunk\<close> without
  looking at the flag again. \<open>pause\<close> only sets the flag, so a second \<open>pause\<close> changes
  nothing, and \<open>unpause\<close> without waiters only clears the flag.
\<close>

theorem pause_gate:
  "(paused s \<longrightarrow>
      uploadChunk hash net index chunk s =
        (Pending, s\<lparr>unpauseHandlers := unpauseHandlers s @ [(index, chunk)]\<rparr>))
   \<and> (Call_unpause \<notin> set calls \<longrightarrow>
        prefix (unpauseHandlers s) (unpauseHandlers (run hash calls s))
        \<and> suffix (jobs (run hash calls s)) (jobs s))
   \<and> unpause s = s\<lparr>paused := False, jobs := jobs s @ unpauseHandlers s, unpauseHandlers := []\<rparr>
   \<and> (jobs s = (index, chunk) # rest \<longrightarrow>
        run_job hash net s =
          (Some (fst (uploadChunk_resume hash net index chunk (s\<lparr>jobs := rest\<rparr>))),
           snd (uploadChunk_resume hash net index chunk (s\<lparr>jobs := rest\<rparr>)))
        \<and> fst (uploadChunk_resume hash net index chunk (s\<lparr>jobs := rest\<rparr>)) \<noteq> Pending
        \<and> jobs (snd (run_job hash net s)) = rest)
   \<and> pause s = s\<lparr>paused := True\<rparr>
   \<and> pause (pause s) = pause s
   \<and> (unpauseHandlers s = [] \<longrightarrow> unpause s = s\<lparr>paused := False\<rparr>)"
proof (intro conjI impI)
  assume "paused s"
  then show "uploadChunk hash net index chunk s =
        (Pending, s\<lparr>unpauseHandlers := unpauseHandlers s @ [(index, chunk)]\<rparr>)"
    by (simp add: uploadChunk_def waitForUnpause_def)
next
  assume "Call_unpause \<notin> set calls"
  then show "prefix (unpauseHandlers s) (unpauseHandlers (run hash calls s))"
    and "suffix (jobs (run hash calls s)) (jobs s)"
    using run_waiters [of calls s hash] by simp_all
next
  show "unpause s = s\<lparr>paused := False, jobs := jobs s @ unpauseHandlers s, unpauseHandlers := []\<rparr>"
    by (rule unpause_eq)
next
  assume j: "jobs s = (index, chunk) # rest"
  then show "run_job hash net s =
          (Some (fst (uploadChunk_resume hash net index chunk (s\<lparr>jobs := rest\<rparr>))),
           snd (uploadChunk_resume hash net index chunk (s\<lparr>jobs := rest\<rparr>)))"
    by (simp add: run_job_def split: prod.splits)
  show "fst (uploadChunk_resume hash net index chunk (s\<lparr>jobs := rest\<rparr>)) \<noteq> Pending"
    by (rule uploadChunk_resume_never_pending)
  show "jobs (snd (run_job hash net s)) = rest"
    using run_job_fields [of hash net s] j by simp
next
  show "pause s = s\<lparr>paused := True\<rparr>" by (simp add: pause_def)
  show "pause (pause s) = pause s" by (simp add: pause_def)
next
  assume "unpauseHandlers s = []"
  then show "unpause s = s\<lparr>paused := False\<rparr>" by (simp add: unpause_eq)
qed


theorem pause_gate_witness:
  "uploadChunk (\<lambda>b. []) (always 200) 0 [1, 2, 3] (pause new_session) =
     (Pending, (pause new_session)\<lparr>unpauseHandlers := [(0, [1, 2, 3])]\<rparr>)
   \<and> prefix (unpauseHandlers (pause new_session))
        (unpauseHandlers (run (\<lambda>b. [])
           [Call_uploadChunk (always 200) 0 [1, 2, 3], Call_cancel] (pause new_session)))
   \<and> fst (uploadChunk_resume (\<lambda>b. []) (always 200) 0 [1, 2, 3]
        ((unpause (pause new_session\<lparr>unpauseHandlers := [(0, [1, 2, 3])]\<rparr>))\<lparr>jobs := []\<rparr>)) \<noteq> Pending
   \<and> unpause new_session = new_session\<lparr>paused := False\<rparr>"
proof -
  have 1: "paused (pause new_session)" by (simp add: pause_def)
  have 2: "Call_unpause \<notin> set [Call_uploadChunk (always 200) 0 [1, 2, 3], Call_cancel]" by simp
  have 3: "jobs (unpause (pause new_session\<lparr>unpauseHandlers := [(0, [1, 2, 3])]\<rparr>)) = (0, [1, 2, 3]) # []"
    by (simp add: unpause_eq pause_def new_session_def)
  have 4: "unpauseHandlers new_session = []" by (simp add: new_session_def)
  have a: "uploadChunk (\<lambda>b. []) (always 200) 0 [1, 2, 3] (pause new_session) =
     (Pending, (pause new_session)\<lparr>unpauseHandlers := [(0, [1, 2, 3])]\<rparr>)"
    using pause_gate [where s = "pause new_session" and hash = "\<lambda>b. []" and net = "always 200"
        and index = 0 and chunk = "[1, 2, 3]", THEN conjunct1, THEN mp, OF 1]
    by (simp add: pause_def new_session_def)
  have b: "prefix (unpauseHandlers (pause new_session))
        (unpauseHandlers (run (\<lambda>b. [])
           [Call_uploadChunk (always 200) 0 [1, 2, 3], Call_cancel] (pause new_session)))"
    using pause_gate [where s = "pause new_session" and hash = "\<lambda>b. []"
        and calls = "[Call_uploadChunk (always 200) 0 [1, 2, 3], Call_cancel]",
        THEN conjunct2, THEN conjunct1, THEN mp, OF 2]
    by simp
  have c: "fst (uploadChunk_resume (\<lambda>b. []) (always 200) 0 [1, 2, 3]
        ((unpause (pause new_session\<lparr>unpauseHandlers := [(0, [1, 2, 3])]\<rparr>))\<lparr>jobs := []\<rparr>)) \<noteq> Pending"
    using pause_gate [where s = "unpause (pause new_session\<lparr>unpauseHandlers := [(0, [1, 2, 3])]\<rparr>)"
        and hash = "\<lambda>b. []" and net = "always 200" and index = 0 and chunk = "[1, 2, 3]" and rest = "[]",
        THEN conjunct2, THEN conjunct2, THEN conjunct2, THEN conjunct1, THEN mp, OF 3]
    by simp
  have d: "unpause new_session = new_session\<lparr>paused := False\<rparr>"
    using pause_gate [where s = new_session, THEN conjunct2, THEN conjunct2, THEN conjunct2,
        THEN conjunct2, THEN conjunct2, THEN conjunct2, THEN mp, OF 4]
    by simp
  show ?thesis using a b c d by (intro conjI)
qed

subsection \<open>Cancel\<close>

lemma Upload_meta:
  assumes "Upload a allow store = Inr s"
  shows "meta_id (meta s) = arg_id a \<and> id' (opts s) = arg_id a"
  using assms unfolding Upload_def Let_def FileMeta_def by (auto split: if_splits)

lemma cancel_eq:
  "cancel s = s\<lparr>storage := (storage s)(meta_id (meta s) := Map.empty),
                trace := trace s @ [StorageClear (meta_id (meta s))]\<rparr>"
  by (simp add: cancel_def reset_def Let_def)

text \<open>
  Claim C8. For a session built by the constructor and any calls made on it since,
  \<open>cancel\<close> empties the checksum store under the session's id and leaves the entries of
  other ids, the flag \<open>paused\<close>, the waiters, the released continuations, the checksum
  accumulator, the options and \<open>meta\<close> as they were.
\<close>

theorem cancel_clears_the_checksums:
  assumes "Upload a allow store = Inr s0" and "s = run hash calls s0"
  shows "storage (cancel s) (arg_id a) = Map.empty
       \<and> (\<forall>k. k \<noteq> arg_id a \<longrightarrow> storage (cancel s) k = storage s k)
       \<and> paused (cancel s) = paused s
       \<and> unpauseHandlers (cancel s) = unpauseHandlers s
       \<and> jobs (cancel s) = jobs s
       \<and> spark (cancel s) = spark s
       \<and> opts (cancel s) = opts s
       \<and> meta (cancel s) = meta s
       \<and> cancel s = s\<lparr>storage := (storage s)(arg_id a := Map.empty),
                       trace := trace s @ [StorageClear (arg_id a)]\<rparr>"
proof -
  have "meta_id (meta s) = arg_id a"
    using Upload_meta [OF assms(1)] run_opts_meta [of hash calls s0] assms(2) by simp
  then show ?thesis by (simp add: cancel_eq)
qed

lemma Upload_new_session: "Upload minimal_args False (\<lambda>k. Map.empty) = Inr new_session"
  by (simp add: Upload_minimal_args new_session_def)

lemma run_one_upload:
  "storage (run (\<lambda>b. ''sum'') [Call_uploadChunk (always 200) 0 [1, 2, 3]] new_session) (Some ''x'') 0
     = Some ''sum''"
proof -
  have "(1::nat) \<le> 1" "1 \<le> backoffRetryLimit (opts new_session) + 1"
    "accepted (always 200 1)"
    by (simp_all add: always_200_accepted)
  from uploadChunk_resume_success [where k = 1 and s = new_session and net = "always 200"
      and hash = "\<lambda>b. ''sum''" and index = 0 and chunk = "[1, 2, 3]", OF this]
  obtain mid where "uploadChunk_resume (\<lambda>b. ''sum'') (always 200) 0 [1, 2, 3] new_session =
          (Resolved (),
           new_session\<lparr>spark := spark new_session @ [1, 2, 3],
             storage := (storage new_session)(meta_id (meta new_session) :=
                (storage new_session (meta_id (meta new_session)))(0 \<mapsto> ''sum'')),
             trace := trace new_session @ Append [1, 2, 3] # mid @
               [StoragePut (meta_id (meta new_session)) 0 ''sum'',
                OnChunkUpload \<lparr>uploadedBytes = 0 * chunkSize (opts new_session) + int (length [1, 2, 3 :: 8 word]),
                  chunkIndex = 0, chunkLength = int (length [1, 2, 3 :: 8 word])\<rparr>]\<rparr>)"
    by blast
  moreover have "\<not> paused new_session" by (simp add: new_session_def)
  ultimately show ?thesis by (simp add: run_def uploadChunk_def new_session_def)
qed

theorem cancel_clears_the_checksums_witness:
  "storage (run (\<lambda>b. ''sum'') [Call_uploadChunk (always 200) 0 [1, 2, 3]] new_session) (Some ''x'') 0
     = Some ''sum''
   \<and> storage (cancel (run (\<lambda>b. ''sum'') [Call_uploadChunk (always 200) 0 [1, 2, 3]] new_session))
       (Some ''x'') = Map.empty"
  using cancel_clears_the_checksums [OF Upload_new_session refl,
      of "\<lambda>b. ''sum''" "[Call_uploadChunk (always 200) 0 [1, 2, 3]]", THEN conjunct1]
    run_one_upload
  by (simp add: minimal_args_def)

end
